theory Spec2Isabelle
  imports Main "HOL-Library.Word"
begin

section \<open>JavaScript strings and numbers\<close>

text \<open>
  A JavaScript string is a sequence of 16-bit code units. String literals of the source
  are written \<open>js ''...''\<close>; all literals of the source are ASCII except the bullet
  U+2022 of the expiry listing.
\<close>

type_synonym jchar = "16 word"
type_synonym jstring = "jchar list"

definition js :: "string \<Rightarrow> jstring" where
  "js s = map (\<lambda>c. word_of_nat (of_char c)) s"

text \<open>
  \<open>String.prototype.trim\<close> removes the WhiteSpace and LineTerminator code units of
  ECMAScript from both ends.
\<close>

definition is_js_space :: "jchar \<Rightarrow> bool" where
  "is_js_space c =
     (c = 0x09 \<or> c = 0x0A \<or> c = 0x0B \<or> c = 0x0C \<or> c = 0x0D \<or> c = 0x20 \<or> c = 0xA0
      \<or> c = 0x1680 \<or> (0x2000 \<le> c \<and> c \<le> 0x200A) \<or> c = 0x2028 \<or> c = 0x2029
      \<or> c = 0x202F \<or> c = 0x205F \<or> c = 0x3000 \<or> c = 0xFEFF)"

definition trim :: "jstring \<Rightarrow> jstring" where
  "trim s = rev (dropWhile is_js_space (rev (dropWhile is_js_space s)))"

text \<open>
  The decimal numeral of an integer. JavaScript prints a number in this way when its value
  is an integer of magnitude below \<open>2^53\<close>, and the numeral is used for such numbers
  only: for an HTTP status, and for an item count through \<open>Number_of_safe_integer\<close>
  below.
\<close>

definition digit_char :: "nat \<Rightarrow> jchar" where
  "digit_char d = word_of_nat (48 + d)"

function digits :: "nat \<Rightarrow> jstring" where
  "digits n = (if n < 10 then [digit_char n] else digits (n div 10) @ [digit_char (n mod 10)])"
  by pat_completeness auto
termination
  by (relation "measure id") auto

declare digits.simps [simp del]

definition Number_toString :: "int \<Rightarrow> jstring" where
  "Number_toString i = (if i < 0 then js ''-'' @ digits (nat (- i)) else digits (nat i))"

section \<open>JSON values\<close>

text \<open>
  The values that \<open>JSON.parse\<close> produces and axios hands over as \<open>response.data\<close>. An
  object lists its members in creation order. A number is represented by its canonical
  rendering (what \<open>String(n)\<close> returns), so that printing a number needs no floating-point
  arithmetic.
\<close>

datatype jsnumber = Number (rendering: jstring)

text \<open>
  The number that an integer denotes, for the integers that a JavaScript number holds
  exactly (\<open>Number.isSafeInteger\<close>): it prints as the decimal numeral. An integer beyond
  that range is rounded when it is parsed and may print in exponent form
  (\<open>1e21\<close> prints as \<open>1e+21\<close>); it is a number with another rendering.
\<close>

definition Number_of_safe_integer :: "int \<Rightarrow> jsnumber option" where
  "Number_of_safe_integer i =
     (if - (2 ^ 53 - 1) \<le> i \<and> i \<le> 2 ^ 53 - 1 then Some (Number (Number_toString i)) else None)"

text \<open>A number is falsy when it is 0, -0 (which prints as 0) or NaN.\<close>

definition Number_truthy :: "jsnumber \<Rightarrow> bool" where
  "Number_truthy n = (rendering n \<noteq> js ''0'' \<and> rendering n \<noteq> js ''NaN'')"

datatype json =
    JNull
  | JBool bool
  | JNum jsnumber
  | JStr jstring
  | JArr "json list"
  | JObj "(jstring \<times> json) list"

text \<open>The tests and accessors of the source on such values.\<close>

fun Array_isArray :: "json \<Rightarrow> bool" where
  "Array_isArray (JArr _) = True"
| "Array_isArray _ = False"

fun array_length :: "json \<Rightarrow> nat" where
  "array_length (JArr xs) = length xs"
| "array_length _ = 0"

fun array_items :: "json \<Rightarrow> json list" where
  "array_items (JArr xs) = xs"
| "array_items _ = []"

text \<open>\<open>typeof v === "object"\<close> holds of arrays, objects and \<open>null\<close>.\<close>

fun typeof_object :: "json \<Rightarrow> bool" where
  "typeof_object (JArr _) = True"
| "typeof_object (JObj _) = True"
| "typeof_object JNull = True"
| "typeof_object _ = False"

section \<open>Data model of the client\<close>

datatype Role = User | Ai

record ChatMessage =
  role :: Role
  content :: jstring
  reminders :: "jstring list option"

text \<open>An assistant message as every flow of the client appends it.\<close>

abbreviation assistant_message :: "jstring \<Rightarrow> ChatMessage" where
  "assistant_message c \<equiv> \<lparr>role = Ai, content = c, reminders = Some []\<rparr>"

text \<open>
  Modelled from the spec: the type of the body of a successful \<open>POST /items\<close>, which the
  source reads as \<open>response.data.message\<close> and \<open>response.data.count\<close> without declaring it.
  The external interface gives \<open>{ message?: string, count?: integer }\<close>. The count is
  the JavaScript number that the body holds. A body of another shape is outside this type.
\<close>

record PostItemsData =
  message :: "jstring option"
  count :: "jsnumber option"

text \<open>
  Modelled from the spec: the body of a failed \<open>POST /items\<close>, read as \<open>data.error\<close>; the
  external interface gives an optional body \<open>{ error: string }\<close>. A response without a
  body has no error field.
\<close>

record ErrorData =
  error :: "jstring option"

record ErrorResponse =
  status :: nat
  statusText :: jstring
  data :: ErrorData

text \<open>
  What the \<open>catch\<close> block inspects of the thrown value: \<open>error.response\<close> (absent when no
  response arrived), whether \<open>error.request\<close> is set, and \<open>error.message\<close>.
\<close>

record AxiosError =
  response :: "ErrorResponse option"
  request :: bool
  error_message :: jstring

datatype request = PostItems jstring | GetItems | GetExpiry

text \<open>
  The view state of \<open>App\<close> and \<open>ChatBox\<close>, and the HTTP requests that were sent and have
  not settled yet.
\<close>

record App =
  conversation :: "ChatMessage list"
  isLoading :: bool
  groceryList :: json
  triggerFetch :: bool
  question :: jstring
  in_flight :: "request list"

section \<open>State setters and effects\<close>

definition handleUserMessage :: "jstring \<Rightarrow> App \<Rightarrow> App" where
  "handleUserMessage msg s =
     s\<lparr>conversation := conversation s @ [\<lparr>role = User, content = msg, reminders = None\<rparr>]\<rparr>"

text \<open>\<open>reminders || []\<close>: an array is truthy even when empty, so only an absent argument
  is replaced.\<close>

definition handleAiMessage :: "jstring \<Rightarrow> jstring list option \<Rightarrow> App \<Rightarrow> App" where
  "handleAiMessage msg rs s =
     s\<lparr>conversation := conversation s @
         [\<lparr>role = Ai, content = msg,
           reminders = Some (case rs of None \<Rightarrow> [] | Some r \<Rightarrow> r)\<rparr>]\<rparr>"

text \<open>\<open>ChatBox\<close> receives \<open>handleAiMessage\<close> as \<open>onAiMessage\<close> and calls it with one
  argument.\<close>

definition onAiMessage :: "jstring \<Rightarrow> App \<Rightarrow> App" where
  "onAiMessage msg s = handleAiMessage msg None s"

definition onLoadingChange :: "bool \<Rightarrow> App \<Rightarrow> App" where
  "onLoadingChange b s = s\<lparr>isLoading := b\<rparr>"

definition setQuestion :: "jstring \<Rightarrow> App \<Rightarrow> App" where
  "setQuestion q s = s\<lparr>question := q\<rparr>"

definition send :: "request \<Rightarrow> App \<Rightarrow> App" where
  "send r s = s\<lparr>in_flight := in_flight s @ [r]\<rparr>"

text \<open>
  \<open>useEffect(..., [triggerFetch])\<close> runs \<open>fetchGroceryList\<close> after a render in which
  \<open>triggerFetch\<close> differs from its previous value. Setting the state to the value it
  already has changes nothing and runs no effect.
\<close>

definition setTriggerFetch :: "bool \<Rightarrow> App \<Rightarrow> App" where
  "setTriggerFetch b s =
     (if triggerFetch s = b then s else send GetItems (s\<lparr>triggerFetch := b\<rparr>))"

text \<open>
  The state after mounting when nothing is hydrated: the initial values of the state
  variables, and the first \<open>GET /items\<close> sent by the effect that fetches the list.
\<close>

definition mounted :: App where
  "mounted = \<lparr>conversation = [], isLoading = False, groceryList = JArr [],
              triggerFetch = False, question = [], in_flight = [GetItems]\<rparr>"

text \<open>
  The effect that runs once at mount: \<open>const history = readHistory();
  if (history.length) setConversation(history)\<close>. Its argument is what \<open>readHistory\<close>
  returned, at its declared type \<open>ChatMessage[]\<close>: the stored array is not validated, so
  it is any sequence of chat messages.
\<close>

definition hydrate :: "ChatMessage list \<Rightarrow> App \<Rightarrow> App" where
  "hydrate history s = (if history \<noteq> [] then s\<lparr>conversation := history\<rparr> else s)"

section \<open>Chat submission\<close>

text \<open>\<open>handleSendClick\<close> up to its \<open>await\<close>.\<close>

definition handleSendClick :: "App \<Rightarrow> App" where
  "handleSendClick s =
     (if trim (question s) = [] \<or> isLoading s then s
      else let msg = trim (question s) in
        send (PostItems msg) (setQuestion [] (handleUserMessage msg (onLoadingChange True s))))"

text \<open>\<open>response.data.message || `Successfully added ${response.data.count || 0} items.`\<close>:
  the empty string is falsy, and so is a count that is 0 or NaN; the template prints the
  number as JavaScript renders it.\<close>

definition aiContent :: "PostItemsData \<Rightarrow> jstring" where
  "aiContent d =
     (let fallback =
        js ''Successfully added '' @
        rendering (case count d of
                     None \<Rightarrow> Number (js ''0'')
                   | Some c \<Rightarrow> if Number_truthy c then c else Number (js ''0'')) @
        js '' items.''
      in case message d of
           None \<Rightarrow> fallback
         | Some m \<Rightarrow> if m \<noteq> [] then m else fallback)"

text \<open>The chain of tests of the \<open>catch\<close> block; \<open>data.error\<close> is tested for truthiness.\<close>

definition errorMessage :: "AxiosError \<Rightarrow> jstring" where
  "errorMessage e =
     (case response e of
        Some r \<Rightarrow>
          if status r = 429 then
            js ''API Quota Error (429): Your daily/minute limit has been reached. Please wait.''
          else (case error (data r) of
                  Some t \<Rightarrow> if t \<noteq> [] then
                              js ''Server Error ('' @ Number_toString (int (status r)) @ js ''): '' @ t
                            else js ''HTTP Error '' @ Number_toString (int (status r)) @ js '': '' @
                                 statusText r
                | None \<Rightarrow> js ''HTTP Error '' @ Number_toString (int (status r)) @ js '': '' @
                          statusText r)
      | None \<Rightarrow>
          if request e then js ''Network Error: The server did not respond.''
          else error_message e)"

text \<open>Removing the first request of a kind from those in flight, when it settles.\<close>

fun settle :: "(request \<Rightarrow> bool) \<Rightarrow> request list \<Rightarrow> request list" where
  "settle p [] = []"
| "settle p (r # rs) = (if p r then rs else r # settle p rs)"

fun is_post :: "request \<Rightarrow> bool" where
  "is_post (PostItems _) = True"
| "is_post _ = False"

text \<open>\<open>handleSendClick\<close> after its \<open>await\<close>: the rest of the \<open>try\<close> block on a response,
  the \<open>catch\<close> block on a failure, and the \<open>finally\<close> block in both cases.\<close>

definition handleSendClick_finally :: "App \<Rightarrow> App" where
  "handleSendClick_finally s = setTriggerFetch True (onLoadingChange False s)"

definition handleSendClick_settled :: "AxiosError + PostItemsData \<Rightarrow> App \<Rightarrow> App" where
  "handleSendClick_settled outcome s =
     (let s1 = s\<lparr>in_flight := settle is_post (in_flight s)\<rparr> in
      handleSendClick_finally
        (case outcome of
           Inr d \<Rightarrow> onAiMessage (aiContent d) s1
         | Inl e \<Rightarrow> onAiMessage (js ''Error: '' @ errorMessage e) s1))"

section \<open>Printing JSON values\<close>

fun join :: "'a list \<Rightarrow> 'a list list \<Rightarrow> 'a list" where
  "join sep [] = []"
| "join sep [x] = x"
| "join sep (x # y # ys) = x @ sep @ join sep (y # ys)"

text \<open>
  \<open>ToString\<close>, as a template literal applies it. An array prints as its elements joined
  by commas, \<open>null\<close> elements as the empty string. An object prints through
  \<open>Object.prototype.toString\<close>, unless it has an own member named \<open>toString\<close>: that
  member is never callable, and the conversion throws a TypeError (\<open>None\<close>).
\<close>

fun ToString :: "json \<Rightarrow> jstring option" where
  "ToString JNull = Some (js ''null'')"
| "ToString (JBool b) = Some (if b then js ''true'' else js ''false'')"
| "ToString (JNum n) = Some (rendering n)"
| "ToString (JStr t) = Some t"
| "ToString (JArr xs) =
     map_option (join (js '',''))
       (those (map (\<lambda>x. case x of JNull \<Rightarrow> Some [] | _ \<Rightarrow> ToString x) xs))"
| "ToString (JObj ms) =
     (if js ''toString'' \<in> set (map fst ms) then None else Some (js ''[object Object]''))"

definition hex_digit :: "nat \<Rightarrow> jchar" where
  "hex_digit d = word_of_nat (if d < 10 then 48 + d else 87 + d)"

definition UnicodeEscape :: "jchar \<Rightarrow> jstring" where
  "UnicodeEscape c =
     [0x5C, 0x75, hex_digit (unat c div 4096), hex_digit (unat c div 256 mod 16),
      hex_digit (unat c div 16 mod 16), hex_digit (unat c mod 16)]"

definition is_leading_surrogate :: "jchar \<Rightarrow> bool" where
  "is_leading_surrogate c = (0xD800 \<le> c \<and> c \<le> 0xDBFF)"

definition is_trailing_surrogate :: "jchar \<Rightarrow> bool" where
  "is_trailing_surrogate c = (0xDC00 \<le> c \<and> c \<le> 0xDFFF)"

text \<open>The escape of one code unit that is not part of a surrogate pair.\<close>

definition quote_unit :: "jchar \<Rightarrow> jstring" where
  "quote_unit c =
     (if c = 0x08 then [0x5C, 0x62]
      else if c = 0x09 then [0x5C, 0x74]
      else if c = 0x0A then [0x5C, 0x6E]
      else if c = 0x0C then [0x5C, 0x66]
      else if c = 0x0D then [0x5C, 0x72]
      else if c = 0x22 then [0x5C, 0x22]
      else if c = 0x5C then [0x5C, 0x5C]
      else if c < 0x20 \<or> is_leading_surrogate c \<or> is_trailing_surrogate c then UnicodeEscape c
      else [c])"

fun quote_units :: "jstring \<Rightarrow> jstring" where
  "quote_units [] = []"
| "quote_units [c] = quote_unit c"
| "quote_units (c # d # cs) =
     (if is_leading_surrogate c \<and> is_trailing_surrogate d then c # d # quote_units cs
      else quote_unit c @ quote_units (d # cs))"

definition QuoteJSONString :: "jstring \<Rightarrow> jstring" where
  "QuoteJSONString t = [0x22] @ quote_units t @ [0x22]"

text \<open>\<open>JSON.stringify\<close> prints a number that is not finite as \<open>null\<close>.\<close>

definition is_finite :: "jsnumber \<Rightarrow> bool" where
  "is_finite n =
     (rendering n \<noteq> js ''Infinity'' \<and> rendering n \<noteq> js ''-Infinity'' \<and> rendering n \<noteq> js ''NaN'')"

text \<open>The brackets around the printed members of an array or object: \<open>gap\<close> is the
  indentation unit (empty for the compact form), \<open>stepback\<close> the indentation of the
  enclosing line.\<close>

definition wrap :: "jstring \<Rightarrow> jstring \<Rightarrow> jstring \<Rightarrow> jstring \<Rightarrow> jstring list \<Rightarrow> jstring" where
  "wrap gap stepback opening closing partial =
     (if partial = [] then opening @ closing
      else if gap = [] then opening @ join (js '','') partial @ closing
      else opening @ [0x0A] @ (stepback @ gap) @
           join ([0x2C, 0x0A] @ (stepback @ gap)) partial @ [0x0A] @ stepback @ closing)"

fun SerializeJSONProperty :: "jstring \<Rightarrow> jstring \<Rightarrow> json \<Rightarrow> jstring" where
  "SerializeJSONProperty gap indent JNull = js ''null''"
| "SerializeJSONProperty gap indent (JBool b) = (if b then js ''true'' else js ''false'')"
| "SerializeJSONProperty gap indent (JNum n) = (if is_finite n then rendering n else js ''null'')"
| "SerializeJSONProperty gap indent (JStr t) = QuoteJSONString t"
| "SerializeJSONProperty gap indent (JArr xs) =
     wrap gap indent (js ''['') (js '']'') (map (SerializeJSONProperty gap (indent @ gap)) xs)"
| "SerializeJSONProperty gap indent (JObj ms) =
     wrap gap indent (js ''{'') (js ''}'')
       (map (\<lambda>(k, v). QuoteJSONString k @ js '':'' @ (if gap = [] then [] else js '' '') @
                      SerializeJSONProperty gap (indent @ gap) v) ms)"

text \<open>\<open>JSON.stringify(value)\<close> and \<open>JSON.stringify(value, null, 2)\<close>.\<close>

definition JSON_stringify :: "json \<Rightarrow> jstring" where
  "JSON_stringify v = SerializeJSONProperty [] [] v"

definition JSON_stringify_2 :: "json \<Rightarrow> jstring" where
  "JSON_stringify_2 v = SerializeJSONProperty (js ''  '') [] v"

section \<open>Parsing JSON text\<close>

datatype token =
    LBrace | RBrace | LBrack | RBrack | Colon | Comma
  | TString jstring | TNumber jstring | TTrue | TFalse | TNull

definition is_json_space :: "jchar \<Rightarrow> bool" where
  "is_json_space c = (c = 0x20 \<or> c = 0x09 \<or> c = 0x0A \<or> c = 0x0D)"

definition is_digit :: "jchar \<Rightarrow> bool" where
  "is_digit c = (0x30 \<le> c \<and> c \<le> 0x39)"

definition hex_value :: "jchar \<Rightarrow> nat option" where
  "hex_value c =
     (if 0x30 \<le> c \<and> c \<le> 0x39 then Some (unat c - 48)
      else if 0x61 \<le> c \<and> c \<le> 0x66 then Some (unat c - 87)
      else if 0x41 \<le> c \<and> c \<le> 0x46 then Some (unat c - 55)
      else None)"

definition hex4 :: "jchar \<Rightarrow> jchar \<Rightarrow> jchar \<Rightarrow> jchar \<Rightarrow> jchar option" where
  "hex4 h1 h2 h3 h4 =
     (case hex_value h1 of None \<Rightarrow> None | Some a \<Rightarrow>
      case hex_value h2 of None \<Rightarrow> None | Some b \<Rightarrow>
      case hex_value h3 of None \<Rightarrow> None | Some c \<Rightarrow>
      case hex_value h4 of None \<Rightarrow> None | Some d \<Rightarrow>
        Some (word_of_nat (((a * 16 + b) * 16 + c) * 16 + d)))"

definition escape_value :: "jchar \<Rightarrow> jchar option" where
  "escape_value e =
     (if e = 0x22 then Some 0x22
      else if e = 0x5C then Some 0x5C
      else if e = 0x2F then Some 0x2F
      else if e = 0x62 then Some 0x08
      else if e = 0x66 then Some 0x0C
      else if e = 0x6E then Some 0x0A
      else if e = 0x72 then Some 0x0D
      else if e = 0x74 then Some 0x09
      else None)"

definition cons_unit :: "jchar \<Rightarrow> (jstring \<times> jstring) option \<Rightarrow> (jstring \<times> jstring) option" where
  "cons_unit u res = (case res of None \<Rightarrow> None | Some (t, r) \<Rightarrow> Some (u # t, r))"

fun lex_string :: "jstring \<Rightarrow> (jstring \<times> jstring) option" where
  "lex_string [] = None"
| "lex_string (c # cs) =
     (if c = 0x22 then Some ([], cs)
      else if c = 0x5C then
        (case cs of
           [] \<Rightarrow> None
         | e # es \<Rightarrow>
             if e = 0x75 then
               (case es of
                  h1 # h2 # h3 # h4 # r \<Rightarrow>
                    (case hex4 h1 h2 h3 h4 of
                       None \<Rightarrow> None
                     | Some u \<Rightarrow> cons_unit u (lex_string r))
                | _ \<Rightarrow> None)
             else (case escape_value e of
                     None \<Rightarrow> None
                   | Some u \<Rightarrow> cons_unit u (lex_string es)))
      else if c < 0x20 then None
      else cons_unit c (lex_string cs))"

definition lex_digits :: "jstring \<Rightarrow> jstring \<times> jstring" where
  "lex_digits s = (takeWhile is_digit s, dropWhile is_digit s)"

definition lex_sign :: "(jchar \<Rightarrow> bool) \<Rightarrow> jstring \<Rightarrow> jstring \<times> jstring" where
  "lex_sign p s = (case s of [] \<Rightarrow> ([], s) | c # r \<Rightarrow> if p c then ([c], r) else ([], s))"

definition lex_fraction :: "jstring \<Rightarrow> (jstring \<times> jstring) option" where
  "lex_fraction s =
     (case s of
        [] \<Rightarrow> Some ([], s)
      | c # r \<Rightarrow>
          if c = 0x2E then
            (case lex_digits r of (ds, r') \<Rightarrow> if ds = [] then None else Some (c # ds, r'))
          else Some ([], s))"

definition lex_exponent :: "jstring \<Rightarrow> (jstring \<times> jstring) option" where
  "lex_exponent s =
     (case s of
        [] \<Rightarrow> Some ([], s)
      | c # r \<Rightarrow>
          if c = 0x65 \<or> c = 0x45 then
            (case lex_sign (\<lambda>d. d = 0x2B \<or> d = 0x2D) r of (sg, r1) \<Rightarrow>
             case lex_digits r1 of (ds, r2) \<Rightarrow>
               if ds = [] then None else Some (c # sg @ ds, r2))
          else Some ([], s))"

definition lex_number :: "jstring \<Rightarrow> (jstring \<times> jstring) option" where
  "lex_number s =
     (case lex_sign (\<lambda>d. d = 0x2D) s of (sg, s1) \<Rightarrow>
      case lex_digits s1 of (ip, s2) \<Rightarrow>
      case ip of
        [] \<Rightarrow> None
      | d # ds \<Rightarrow>
          if d = 0x30 \<and> ds \<noteq> [] then None
          else (case lex_fraction s2 of None \<Rightarrow> None | Some (fp, s3) \<Rightarrow>
                case lex_exponent s3 of None \<Rightarrow> None | Some (ep, s4) \<Rightarrow>
                  Some (sg @ ip @ fp @ ep, s4)))"

lemma cons_unit_shorter:
  "cons_unit u res = Some (t, r) \<Longrightarrow> \<exists>t'. res = Some (t', r)"
  by (auto simp: cons_unit_def split: option.splits)

lemma lex_string_shorter: "lex_string cs = Some (t, r) \<Longrightarrow> length r < length cs"
proof (induction cs arbitrary: t rule: lex_string.induct)
  case 1
  then show ?case by simp
next
  case (2 c cs)
  then show ?case
    by (fastforce split: if_splits list.splits option.splits dest!: cons_unit_shorter)
qed

lemma lex_digits_lexeme: "lex_digits s = (ds, r) \<Longrightarrow> s = ds @ r"
  by (auto simp: lex_digits_def)

lemma lex_sign_lexeme: "lex_sign p s = (sg, r) \<Longrightarrow> s = sg @ r"
  by (auto simp: lex_sign_def split: list.splits if_splits)

lemma lex_fraction_lexeme: "lex_fraction s = Some (fp, r) \<Longrightarrow> s = fp @ r"
  by (auto simp: lex_fraction_def split: list.splits if_splits prod.splits
      dest: lex_digits_lexeme)

lemma lex_exponent_lexeme: "lex_exponent s = Some (ep, r) \<Longrightarrow> s = ep @ r"
  by (auto simp: lex_exponent_def split: list.splits if_splits prod.splits
      dest!: lex_digits_lexeme lex_sign_lexeme)

lemma lex_number_lexeme:
  assumes "lex_number s = Some (l, r)"
  shows "s = l @ r \<and> l \<noteq> []"
proof -
  obtain sg s1 where sg: "lex_sign (\<lambda>d. d = 0x2D) s = (sg, s1)"
    by (cases "lex_sign (\<lambda>d. d = 0x2D) s")
  obtain ip s2 where ip: "lex_digits s1 = (ip, s2)"
    by (cases "lex_digits s1")
  from assms sg ip obtain fp s3 ep where
    n: "ip \<noteq> []" and fp: "lex_fraction s2 = Some (fp, s3)"
    and ep: "lex_exponent s3 = Some (ep, r)" and l: "l = sg @ ip @ fp @ ep"
    by (auto simp: lex_number_def split: list.splits if_splits option.splits)
  have "s = sg @ s1" "s1 = ip @ s2" "s2 = fp @ s3" "s3 = ep @ r"
    using sg ip fp ep
    by (auto dest: lex_sign_lexeme lex_digits_lexeme lex_fraction_lexeme lex_exponent_lexeme)
  with n l show ?thesis by simp
qed

lemma lex_number_shorter: "lex_number s = Some (l, r) \<Longrightarrow> length r < length s"
  using lex_number_lexeme [of s l r] by (cases l) auto

function tokenize :: "jstring \<Rightarrow> token list option" where
  "tokenize [] = Some []"
| "tokenize (c # cs) =
     (if is_json_space c then tokenize cs
      else if c = 0x7B then map_option (Cons LBrace) (tokenize cs)
      else if c = 0x7D then map_option (Cons RBrace) (tokenize cs)
      else if c = 0x5B then map_option (Cons LBrack) (tokenize cs)
      else if c = 0x5D then map_option (Cons RBrack) (tokenize cs)
      else if c = 0x3A then map_option (Cons Colon) (tokenize cs)
      else if c = 0x2C then map_option (Cons Comma) (tokenize cs)
      else if c = 0x22 then
        (case lex_string cs of
           None \<Rightarrow> None
         | Some (t, r) \<Rightarrow> map_option (Cons (TString t)) (tokenize r))
      else if c = 0x2D \<or> is_digit c then
        (case lex_number (c # cs) of
           None \<Rightarrow> None
         | Some (l, r) \<Rightarrow> map_option (Cons (TNumber l)) (tokenize r))
      else if take 4 (c # cs) = js ''true'' then map_option (Cons TTrue) (tokenize (drop 3 cs))
      else if take 5 (c # cs) = js ''false'' then map_option (Cons TFalse) (tokenize (drop 4 cs))
      else if take 4 (c # cs) = js ''null'' then map_option (Cons TNull) (tokenize (drop 3 cs))
      else None)"
  by pat_completeness auto
termination
  by (relation "measure length") (auto dest: lex_string_shorter lex_number_shorter)

declare tokenize.simps(2) [simp del]


text \<open>
  Defining a member of the object under construction: a repeated name keeps its place and
  takes the later value.
\<close>

fun define_member :: "jstring \<Rightarrow> json \<Rightarrow> (jstring \<times> json) list \<Rightarrow> (jstring \<times> json) list" where
  "define_member k v [] = [(k, v)]"
| "define_member k v (m # ms) = (if fst m = k then (k, v) # ms else m # define_member k v ms)"

text \<open>
  The grammar of JSON values over tokens. Each function returns the value read and the
  tokens after it. The loops continue only on a shorter remainder; a value always
  consumes a token, so that test never fails (lemma \<open>parse_shorter\<close>).
\<close>

function parse_value :: "(jstring \<Rightarrow> jsnumber) \<Rightarrow> token list \<Rightarrow> (json \<times> token list) option"
  and parse_elements ::
    "(jstring \<Rightarrow> jsnumber) \<Rightarrow> json list \<Rightarrow> token list \<Rightarrow> (json \<times> token list) option"
  and parse_members ::
    "(jstring \<Rightarrow> jsnumber) \<Rightarrow> (jstring \<times> json) list \<Rightarrow> token list \<Rightarrow> (json \<times> token list) option"
where
  "parse_value nv [] = None"
| "parse_value nv (TNull # ts) = Some (JNull, ts)"
| "parse_value nv (TTrue # ts) = Some (JBool True, ts)"
| "parse_value nv (TFalse # ts) = Some (JBool False, ts)"
| "parse_value nv (TNumber l # ts) = Some (JNum (nv l), ts)"
| "parse_value nv (TString t # ts) = Some (JStr t, ts)"
| "parse_value nv (LBrack # ts) =
     (case ts of
        RBrack # r \<Rightarrow> Some (JArr [], r)
      | _ \<Rightarrow> parse_elements nv [] ts)"
| "parse_value nv (LBrace # ts) =
     (case ts of
        RBrace # r \<Rightarrow> Some (JObj [], r)
      | _ \<Rightarrow> parse_members nv [] ts)"
| "parse_value nv (RBrack # ts) = None"
| "parse_value nv (RBrace # ts) = None"
| "parse_value nv (Colon # ts) = None"
| "parse_value nv (Comma # ts) = None"
| "parse_elements nv acc ts =
     (case parse_value nv ts of
        None \<Rightarrow> None
      | Some (v, r) \<Rightarrow>
          if length r < length ts then
            (case r of
               Comma # r' \<Rightarrow> parse_elements nv (acc @ [v]) r'
             | RBrack # r' \<Rightarrow> Some (JArr (acc @ [v]), r')
             | _ \<Rightarrow> None)
          else None)"
| "parse_members nv acc ts =
     (case ts of
        TString k # Colon # r \<Rightarrow>
          (case parse_value nv r of
             None \<Rightarrow> None
           | Some (v, r') \<Rightarrow>
               if length r' < length r then
                 (case r' of
                    Comma # r'' \<Rightarrow> parse_members nv (define_member k v acc) r''
                  | RBrace # r'' \<Rightarrow> Some (JObj (define_member k v acc), r'')
                  | _ \<Rightarrow> None)
               else None)
      | _ \<Rightarrow> None)"
  by pat_completeness auto
termination
  by (relation "measure (\<lambda>x. case x of
        Inl (nv, ts) \<Rightarrow> 2 * length ts
      | Inr (Inl (nv, acc, ts)) \<Rightarrow> 2 * length ts + 1
      | Inr (Inr (nv, acc, ts)) \<Rightarrow> 2 * length ts + 1)") auto

declare parse_elements.simps [simp del] parse_members.simps [simp del]

text \<open>\<open>JSON.parse\<close>: \<open>None\<close> is a SyntaxError. The parameter \<open>nv\<close> gives the number that a
  numeric literal denotes.\<close>

definition JSON_parse :: "(jstring \<Rightarrow> jsnumber) \<Rightarrow> jstring \<Rightarrow> json option" where
  "JSON_parse nv text =
     (case tokenize text of
        None \<Rightarrow> None
      | Some ts \<Rightarrow>
          (case parse_value nv ts of
             Some (v, []) \<Rightarrow> Some v
           | _ \<Rightarrow> None))"

text \<open>
  The tokens of the compact text of a value, and the values whose text is read back as
  they are: those without numbers (whose rendering need not be a literal) and without
  repeated member names.
\<close>

fun toks :: "json \<Rightarrow> token list" where
  "toks JNull = [TNull]"
| "toks (JBool b) = [if b then TTrue else TFalse]"
| "toks (JNum n) = [TNumber (rendering n)]"
| "toks (JStr t) = [TString t]"
| "toks (JArr xs) = LBrack # join [Comma] (map toks xs) @ [RBrack]"
| "toks (JObj ms) = LBrace # join [Comma] (map (\<lambda>(k, v). TString k # Colon # toks v) ms) @ [RBrace]"

fun plain :: "json \<Rightarrow> bool" where
  "plain (JNum n) = False"
| "plain (JArr xs) = list_all plain xs"
| "plain (JObj ms) = (distinct (map fst ms) \<and> list_all (\<lambda>(k, v). plain v) ms)"
| "plain _ = True"

section \<open>The stored chat history\<close>

text \<open>
  \<open>localStorage\<close>: its entries, whether access is denied (every call throws), and the
  largest entry it accepts (a larger one throws on writing).
\<close>

datatype exception = SecurityError | QuotaExceededError | SyntaxError

record Storage =
  entries :: "jstring \<rightharpoonup> jstring"
  denied :: bool
  capacity :: nat

definition getItem :: "jstring \<Rightarrow> Storage \<Rightarrow> exception + jstring option" where
  "getItem k st = (if denied st then Inl SecurityError else Inr (entries st k))"

definition setItem :: "jstring \<Rightarrow> jstring \<Rightarrow> Storage \<Rightarrow> exception + Storage" where
  "setItem k v st =
     (if denied st then Inl SecurityError
      else if capacity st < length k + length v then Inl QuotaExceededError
      else Inr (st\<lparr>entries := (entries st)(k \<mapsto> v)\<rparr>))"

definition STORAGE_KEY :: jstring where
  "STORAGE_KEY = js ''chat_history''"

text \<open>A chat message as the object it is: \<open>role\<close> and \<open>content\<close>, and \<open>reminders\<close> when
  present.\<close>

definition json_of_Role :: "Role \<Rightarrow> json" where
  "json_of_Role r = JStr (case r of User \<Rightarrow> js ''user'' | Ai \<Rightarrow> js ''ai'')"

definition json_of_ChatMessage :: "ChatMessage \<Rightarrow> json" where
  "json_of_ChatMessage m =
     JObj ([(js ''role'', json_of_Role (role m)), (js ''content'', JStr (content m))] @
           (case reminders m of
              None \<Rightarrow> []
            | Some rs \<Rightarrow> [(js ''reminders'', JArr (map JStr rs))]))"

text \<open>The body of the \<open>try\<close> block of \<open>readHistory\<close>, and \<open>readHistory\<close> with its
  \<open>catch\<close>. The parsed array is returned as it is.\<close>

definition readHistory_try :: "(jstring \<Rightarrow> jsnumber) \<Rightarrow> Storage \<Rightarrow> exception + json list" where
  "readHistory_try nv st =
     (case getItem STORAGE_KEY st of
        Inl e \<Rightarrow> Inl e
      | Inr None \<Rightarrow> Inr []
      | Inr (Some raw) \<Rightarrow>
          if raw = [] then Inr []
          else (case JSON_parse nv raw of
                  None \<Rightarrow> Inl SyntaxError
                | Some parsed \<Rightarrow> Inr (if Array_isArray parsed then array_items parsed else [])))"

definition readHistory :: "(jstring \<Rightarrow> jsnumber) \<Rightarrow> Storage \<Rightarrow> json list" where
  "readHistory nv st = (case readHistory_try nv st of Inl e \<Rightarrow> [] | Inr history \<Rightarrow> history)"

definition writeHistory :: "ChatMessage list \<Rightarrow> Storage \<Rightarrow> Storage" where
  "writeHistory history st =
     (case setItem STORAGE_KEY (JSON_stringify (JArr (map json_of_ChatMessage history))) st of
        Inl e \<Rightarrow> st
      | Inr st' \<Rightarrow> st')"

section \<open>Expiry check\<close>

text \<open>The three branches that compute \<open>expiryMessage\<close>; \<open>None\<close> when a template
  literal throws.\<close>

definition expiryMessage :: "json \<Rightarrow> jstring option" where
  "expiryMessage expiryData =
     (if Array_isArray expiryData \<and> array_length expiryData > 0 then
        map_option
          (\<lambda>lines. js ''Expiring items:'' @ [0x0A, 0x0A] @ join [0x0A] lines)
          (those (map (\<lambda>item. map_option (\<lambda>t. [0x2022, 0x20] @ t) (ToString item))
                    (array_items expiryData)))
      else if typeof_object expiryData \<and> expiryData \<noteq> JNull then
        Some (js ''Expiring items:'' @ [0x0A, 0x0A] @ JSON_stringify_2 expiryData)
      else Some (js ''Great news! No items are expiring soon.''))"

fun is_expiry :: "request \<Rightarrow> bool" where
  "is_expiry GetExpiry = True"
| "is_expiry _ = False"

text \<open>\<open>handleCheckExpiries\<close> up to its \<open>await\<close>, and after it.\<close>

definition handleCheckExpiries :: "App \<Rightarrow> App" where
  "handleCheckExpiries s =
     send GetExpiry
       (handleUserMessage (js ''Show me a list of all expiring items in the next 7 days.'') s)"

definition handleCheckExpiries_settled :: "AxiosError + json \<Rightarrow> App \<Rightarrow> App" where
  "handleCheckExpiries_settled outcome s =
     (let s1 = s\<lparr>in_flight := settle is_expiry (in_flight s)\<rparr> in
      case outcome of
        Inr expiryData \<Rightarrow>
          (case expiryMessage expiryData of
             Some m \<Rightarrow> handleAiMessage m None s1
           | None \<Rightarrow> handleAiMessage (js ''Error fetching expiry items. Please try again.'') None s1)
      | Inl e \<Rightarrow> handleAiMessage (js ''Error fetching expiry items. Please try again.'') None s1)"

section \<open>Grocery list\<close>

fun is_items :: "request \<Rightarrow> bool" where
  "is_items GetItems = True"
| "is_items _ = False"

definition setGroceryList :: "json \<Rightarrow> App \<Rightarrow> App" where
  "setGroceryList d s = s\<lparr>groceryList := d\<rparr>"

text \<open>\<open>fetchGroceryList\<close> after its \<open>await\<close>: the \<open>catch\<close> block only logs.\<close>

definition fetchGroceryList_settled :: "AxiosError + json \<Rightarrow> App \<Rightarrow> App" where
  "fetchGroceryList_settled outcome s =
     (let s1 = s\<lparr>in_flight := settle is_items (in_flight s)\<rparr> in
      case outcome of Inr d \<Rightarrow> setGroceryList d s1 | Inl e \<Rightarrow> s1)"

section \<open>The client as a transition system\<close>

text \<open>
  What can happen to the mounted client: the user types, presses send or the expiry
  button, and a request in flight settles with a response or a failure.
\<close>

datatype event =
    Typed jstring
  | SendClick
  | PostSettled "AxiosError + PostItemsData"
  | CheckExpiriesClick
  | ExpirySettled "AxiosError + json"
  | ItemsSettled "AxiosError + json"

fun step :: "event \<Rightarrow> App \<Rightarrow> App" where
  "step (Typed q) s = setQuestion q s"
| "step SendClick s = handleSendClick s"
| "step (PostSettled outcome) s = handleSendClick_settled outcome s"
| "step CheckExpiriesClick s = handleCheckExpiries s"
| "step (ExpirySettled outcome) s = handleCheckExpiries_settled outcome s"
| "step (ItemsSettled outcome) s = fetchGroceryList_settled outcome s"

text \<open>A request settles only while it is in flight.\<close>

fun enabled :: "event \<Rightarrow> App \<Rightarrow> bool" where
  "enabled (PostSettled _) s = list_ex is_post (in_flight s)"
| "enabled (ExpirySettled _) s = list_ex is_expiry (in_flight s)"
| "enabled (ItemsSettled _) s = list_ex is_items (in_flight s)"
| "enabled _ s = True"

text \<open>
  The states of a session whose mount hydrated the stored \<open>history\<close> (the empty sequence
  when nothing usable is stored), and the states of any session.
\<close>

inductive reachable_from :: "ChatMessage list \<Rightarrow> App \<Rightarrow> bool" for history where
  at_mount: "reachable_from history (hydrate history mounted)"
| after_event: "reachable_from history s \<Longrightarrow> enabled e s \<Longrightarrow> reachable_from history (step e s)"

definition reachable :: "App \<Rightarrow> bool" where
  "reachable s = (\<exists>history. reachable_from history s)"

definition run :: "event list \<Rightarrow> App \<Rightarrow> App" where
  "run es s = foldl (\<lambda>t e. step e t) s es"

text \<open>A state used in examples: the user has typed \<open>add milk\<close> and pressed send.\<close>

definition milk_sent :: App where
  "milk_sent = run [Typed (js ''add milk''), SendClick] mounted"

section \<open>Chat submission: the success message\<close>

lemma trim_add_milk: "trim (js ''add milk'') = js ''add milk''" "js ''add milk'' \<noteq> []"
  by (simp_all add: trim_def js_def is_js_space_def)

lemma milk_sent:
  "milk_sent =
     \<lparr>conversation = [\<lparr>role = User, content = js ''add milk'', reminders = None\<rparr>],
      isLoading = True, groceryList = JArr [], triggerFetch = False, question = [],
      in_flight = [GetItems, PostItems (js ''add milk'')]\<rparr>"
  by (simp add: milk_sent_def run_def handleSendClick_def setQuestion_def mounted_def
      trim_add_milk send_def handleUserMessage_def onLoadingChange_def Let_def)

lemma conversation_finally:
  "conversation (handleSendClick_finally s) = conversation s"
  by (simp add: handleSendClick_finally_def setTriggerFetch_def onLoadingChange_def send_def)

lemma conversation_settled:
  "conversation (handleSendClick_settled outcome s) =
     conversation s @
       [\<lparr>role = Ai,
         content = (case outcome of Inr d \<Rightarrow> aiContent d
                    | Inl e \<Rightarrow> js ''Error: '' @ errorMessage e),
         reminders = Some []\<rparr>]"
  by (simp add: handleSendClick_settled_def conversation_finally onAiMessage_def
      handleAiMessage_def Let_def split: sum.split)

lemma aiContent_message:
  "message d = Some m \<Longrightarrow> m \<noteq> [] \<Longrightarrow> aiContent d = m"
  by (simp add: aiContent_def Let_def)

lemma aiContent_no_count:
  "message d = None \<or> message d = Some [] \<Longrightarrow> count d = None \<Longrightarrow>
   aiContent d = js ''Successfully added 0 items.''"
  by (auto simp: aiContent_def Let_def js_def)

lemma aiContent_count:
  "message d = None \<or> message d = Some [] \<Longrightarrow> count d = Some c \<Longrightarrow> rendering c \<noteq> js ''NaN'' \<Longrightarrow>
   aiContent d = js ''Successfully added '' @ rendering c @ js '' items.''"
  by (auto simp: aiContent_def Let_def Number_truthy_def)

lemma digits_first: "\<exists>d t. digits n = digit_char d # t \<and> d < 10"
proof (induction n rule: digits.induct)
  case (1 n)
  show ?case
  proof (cases "n < 10")
    case True
    then show ?thesis by (subst digits.simps) auto
  next
    case False
    with 1 obtain d t where "digits (n div 10) = digit_char d # t" "d < 10"
      by blast
    with False show ?thesis by (subst digits.simps) auto
  qed
qed

lemma Number_toString_not_NaN: "Number_toString i \<noteq> js ''NaN''"
proof -
  obtain d t where d: "digits (nat \<bar>i\<bar>) = digit_char d # t" "d < 10"
    using digits_first by blast
  have "unat (digit_char d) = (48 + d) mod 2 ^ LENGTH(16)"
    unfolding digit_char_def by (rule unat_of_nat)
  then have "unat (digit_char d) = 48 + d"
    using d(2) by simp
  then have "digit_char d \<noteq> 0x4E"
    using d(2) by auto
  with d(1) show ?thesis
    by (cases "i < 0") (simp_all add: Number_toString_def js_def)
qed

lemma aiContent_integer:
  assumes "message d = None \<or> message d = Some []" and "count d = Some c"
    and "Number_of_safe_integer n = Some c"
  shows "aiContent d = js ''Successfully added '' @ Number_toString n @ js '' items.''"
proof -
  from assms(3) have "rendering c = Number_toString n"
    by (auto simp: Number_of_safe_integer_def split: if_splits)
  with aiContent_count [OF assms(1,2)] Number_toString_not_NaN [of n] show ?thesis
    by simp
qed

lemma Number_toString_0: "Number_toString 0 = js ''0''"
  by (simp add: Number_toString_def digits.simps digit_char_def js_def)

lemma Number_toString_3: "Number_toString 3 = js ''3''"
  by (simp add: Number_toString_def digits.simps digit_char_def js_def)

lemma Number_toString_5: "Number_toString 5 = js ''5''"
  by (simp add: Number_toString_def digits.simps digit_char_def js_def)

lemma js_append: "js a @ js b = js (a @ b)"
  by (simp add: js_def)

text \<open>
  Claim C1, as amended. For every successful \<open>POST /items\<close> response, exactly one
  assistant message is appended. If the body has a non-empty message field, its content
  is exactly that message. If the message field is absent or is the empty string, the
  content is \<open>Successfully added N items.\<close>, where N is 0 when the count field is absent
  and otherwise the count field as JavaScript prints the number: the decimal numeral
  when the count is an integer of magnitude below \<open>2^53\<close>.
\<close>

theorem success_message_content:
  "(message d = Some m \<and> m \<noteq> [] \<longrightarrow>
      conversation (handleSendClick_settled (Inr d) s) = conversation s @ [assistant_message m]) \<and>
   (message d = None \<or> message d = Some [] \<longrightarrow>
      (count d = None \<longrightarrow>
         conversation (handleSendClick_settled (Inr d) s) =
           conversation s @ [assistant_message (js ''Successfully added 0 items.'')]) \<and>
      (\<forall>c. count d = Some c \<and> rendering c \<noteq> js ''NaN'' \<longrightarrow>
         conversation (handleSendClick_settled (Inr d) s) =
           conversation s @
             [assistant_message (js ''Successfully added '' @ rendering c @ js '' items.'')]) \<and>
      (\<forall>c n. count d = Some c \<and> Number_of_safe_integer n = Some c \<longrightarrow>
         conversation (handleSendClick_settled (Inr d) s) =
           conversation s @
             [assistant_message (js ''Successfully added '' @ Number_toString n @ js '' items.'')]))"
  by (simp add: conversation_settled aiContent_message aiContent_no_count aiContent_count
      aiContent_integer)

text \<open>
  The two examples of the specification, \<open>{message: "Added milk"}\<close> and \<open>{count: 3}\<close>;
  the empty body; and the count \<open>1e21\<close>, which JavaScript prints as \<open>1e+21\<close>.
\<close>

theorem success_message_content_witness:
  "conversation (handleSendClick_settled (Inr \<lparr>message = Some (js ''Added milk''), count = None\<rparr>)
      milk_sent) =
     [\<lparr>role = User, content = js ''add milk'', reminders = None\<rparr>,
      assistant_message (js ''Added milk'')] \<and>
   Number_of_safe_integer 3 = Some (Number (js ''3'')) \<and>
   conversation (handleSendClick_settled (Inr \<lparr>message = None, count = Some (Number (js ''3''))\<rparr>)
      milk_sent) =
     [\<lparr>role = User, content = js ''add milk'', reminders = None\<rparr>,
      assistant_message (js ''Successfully added 3 items.'')] \<and>
   conversation (handleSendClick_settled (Inr \<lparr>message = None, count = None\<rparr>) milk_sent) =
     [\<lparr>role = User, content = js ''add milk'', reminders = None\<rparr>,
      assistant_message (js ''Successfully added 0 items.'')] \<and>
   conversation (handleSendClick_settled (Inr \<lparr>message = None, count = Some (Number (js ''1e+21''))\<rparr>)
      milk_sent) =
     [\<lparr>role = User, content = js ''add milk'', reminders = None\<rparr>,
      assistant_message (js ''Successfully added 1e+21 items.'')]"
proof -
  let ?user = "\<lparr>role = User, content = js ''add milk'', reminders = None\<rparr>"
  have conv: "conversation milk_sent = [?user]"
    by (simp add: milk_sent)
  have three: "Number_of_safe_integer 3 = Some (Number (js ''3''))"
    by (simp add: Number_of_safe_integer_def Number_toString_3)
  have lit: "js ''Successfully added '' @ Number_toString 3 @ js '' items.'' =
      js ''Successfully added 3 items.''"
    "js ''Successfully added '' @ js ''1e+21'' @ js '' items.'' = js ''Successfully added 1e+21 items.''"
    by (simp_all add: Number_toString_3) (simp_all add: js_def)
  have ne: "js ''Added milk'' \<noteq> []" "js ''1e+21'' \<noteq> js ''NaN''"
    by (simp_all add: js_def)
  have "conversation (handleSendClick_settled
      (Inr \<lparr>message = Some (js ''Added milk''), count = None\<rparr>) milk_sent) =
      [?user, assistant_message (js ''Added milk'')]"
    using success_message_content [of "\<lparr>message = Some (js ''Added milk''), count = None\<rparr>"
        "js ''Added milk''" milk_sent] ne(1)
    by (simp add: conv)
  moreover have "conversation (handleSendClick_settled
      (Inr \<lparr>message = None, count = Some (Number (js ''3''))\<rparr>) milk_sent) =
      [?user, assistant_message (js ''Successfully added 3 items.'')]"
  proof -
    have "conversation (handleSendClick_settled
        (Inr \<lparr>message = None, count = Some (Number (js ''3''))\<rparr>) milk_sent) =
        conversation milk_sent @
          [assistant_message (js ''Successfully added '' @ Number_toString 3 @ js '' items.'')]"
      using success_message_content [of "\<lparr>message = None, count = Some (Number (js ''3''))\<rparr>"
          "[]" milk_sent] three
      by simp
    then show ?thesis
      by (simp only: lit conv) simp
  qed
  moreover have "conversation (handleSendClick_settled (Inr \<lparr>message = None, count = None\<rparr>)
      milk_sent) = [?user, assistant_message (js ''Successfully added 0 items.'')]"
    using success_message_content [of "\<lparr>message = None, count = None\<rparr>" "[]" milk_sent]
    by (simp add: conv)
  moreover have "conversation (handleSendClick_settled
      (Inr \<lparr>message = None, count = Some (Number (js ''1e+21''))\<rparr>) milk_sent) =
      [?user, assistant_message (js ''Successfully added 1e+21 items.'')]"
  proof -
    have "conversation (handleSendClick_settled
        (Inr \<lparr>message = None, count = Some (Number (js ''1e+21''))\<rparr>) milk_sent) =
        conversation milk_sent @
          [assistant_message (js ''Successfully added '' @ js ''1e+21'' @ js '' items.'')]"
      using success_message_content [of "\<lparr>message = None, count = Some (Number (js ''1e+21''))\<rparr>"
          "[]" milk_sent] ne(2)
      by simp
    then show ?thesis
      by (simp only: lit conv) simp
  qed
  ultimately show ?thesis
    using three by blast
qed

text \<open>
  Claim C1 as stated fails where the message field is present and empty: the body
  \<open>{message: ""}\<close> has a message field, and the appended content is not that message.
\<close>

theorem success_message_counterexample:
  "message \<lparr>message = Some [], count = None\<rparr> = Some [] \<and>
   conversation (handleSendClick_settled (Inr \<lparr>message = Some [], count = None\<rparr>) milk_sent) =
     conversation milk_sent @ [assistant_message (js ''Successfully added 0 items.'')] \<and>
   conversation (handleSendClick_settled (Inr \<lparr>message = Some [], count = None\<rparr>) milk_sent) \<noteq>
     conversation milk_sent @ [assistant_message []]"
  by (simp add: conversation_settled aiContent_no_count) (simp add: js_def)

text \<open>
  Claim C9. A message field that is present and equal to the empty string is not
  preferred: the count-based text is used, whose number is the count field as JavaScript
  prints it (the decimal numeral for an integer of magnitude below \<open>2^53\<close>); with the
  count absent or 0 the content is \<open>Successfully added 0 items.\<close>
\<close>

theorem empty_message_uses_count:
  "message d = Some [] \<Longrightarrow>
   (count d = None \<or> count d = Some (Number (js ''0'')) \<longrightarrow>
      conversation (handleSendClick_settled (Inr d) s) =
        conversation s @ [assistant_message (js ''Successfully added 0 items.'')]) \<and>
   (\<forall>c. count d = Some c \<and> rendering c \<noteq> js ''NaN'' \<longrightarrow>
      conversation (handleSendClick_settled (Inr d) s) =
        conversation s @
          [assistant_message (js ''Successfully added '' @ rendering c @ js '' items.'')]) \<and>
   (\<forall>c n. count d = Some c \<and> Number_of_safe_integer n = Some c \<longrightarrow>
      conversation (handleSendClick_settled (Inr d) s) =
        conversation s @
          [assistant_message (js ''Successfully added '' @ Number_toString n @ js '' items.'')])"
proof -
  assume m: "message d = Some []"
  have zero: "aiContent d = js ''Successfully added 0 items.''"
    if "count d = Some (Number (js ''0''))"
  proof -
    have "js ''0'' \<noteq> js ''NaN''"
      by (simp add: js_def)
    with m that have "aiContent d = js ''Successfully added '' @ js ''0'' @ js '' items.''"
      using aiContent_count [of d "Number (js ''0'')"] by simp
    then show ?thesis
      by (simp add: js_def)
  qed
  from m show ?thesis
    by (auto simp: conversation_settled aiContent_no_count aiContent_count aiContent_integer zero)
qed

text \<open>The bodies \<open>{message: ""}\<close>, \<open>{message: "", count: 0}\<close> and
  \<open>{message: "", count: 5}\<close>.\<close>

theorem empty_message_uses_count_witness:
  "conversation (handleSendClick_settled (Inr \<lparr>message = Some [], count = None\<rparr>) milk_sent) =
     [\<lparr>role = User, content = js ''add milk'', reminders = None\<rparr>,
      assistant_message (js ''Successfully added 0 items.'')] \<and>
   Number_of_safe_integer 0 = Some (Number (js ''0'')) \<and>
   conversation (handleSendClick_settled (Inr \<lparr>message = Some [], count = Some (Number (js ''0''))\<rparr>)
      milk_sent) =
     [\<lparr>role = User, content = js ''add milk'', reminders = None\<rparr>,
      assistant_message (js ''Successfully added 0 items.'')] \<and>
   Number_of_safe_integer 5 = Some (Number (js ''5'')) \<and>
   conversation (handleSendClick_settled (Inr \<lparr>message = Some [], count = Some (Number (js ''5''))\<rparr>)
      milk_sent) =
     [\<lparr>role = User, content = js ''add milk'', reminders = None\<rparr>,
      assistant_message (js ''Successfully added 5 items.'')]"
proof -
  let ?user = "\<lparr>role = User, content = js ''add milk'', reminders = None\<rparr>"
  have conv: "conversation milk_sent = [?user]"
    by (simp add: milk_sent)
  have zero: "Number_of_safe_integer 0 = Some (Number (js ''0''))"
    by (simp add: Number_of_safe_integer_def Number_toString_0)
  have five: "Number_of_safe_integer 5 = Some (Number (js ''5''))"
    by (simp add: Number_of_safe_integer_def Number_toString_5)
  have lit: "js ''Successfully added '' @ Number_toString 5 @ js '' items.'' =
      js ''Successfully added 5 items.''"
    by (simp add: Number_toString_5) (simp add: js_def)
  have "conversation (handleSendClick_settled (Inr \<lparr>message = Some [], count = None\<rparr>) milk_sent) =
      [?user, assistant_message (js ''Successfully added 0 items.'')]"
    using empty_message_uses_count [of "\<lparr>message = Some [], count = None\<rparr>" milk_sent]
    by (simp add: conv)
  moreover have "conversation (handleSendClick_settled
      (Inr \<lparr>message = Some [], count = Some (Number (js ''0''))\<rparr>) milk_sent) =
      [?user, assistant_message (js ''Successfully added 0 items.'')]"
    using empty_message_uses_count [of "\<lparr>message = Some [], count = Some (Number (js ''0''))\<rparr>"
        milk_sent, THEN conjunct1]
    by (simp add: conv)
  moreover have "conversation (handleSendClick_settled
      (Inr \<lparr>message = Some [], count = Some (Number (js ''5''))\<rparr>) milk_sent) =
      [?user, assistant_message (js ''Successfully added 5 items.'')]"
  proof -
    have "conversation (handleSendClick_settled
        (Inr \<lparr>message = Some [], count = Some (Number (js ''5''))\<rparr>) milk_sent) =
        conversation milk_sent @
          [assistant_message (js ''Successfully added '' @ Number_toString 5 @ js '' items.'')]"
      using empty_message_uses_count [of "\<lparr>message = Some [], count = Some (Number (js ''5''))\<rparr>"
          milk_sent] five
      by simp
    then show ?thesis
      by (simp only: lit conv) simp
  qed
  ultimately show ?thesis
    using zero five by blast
qed

section \<open>Chat submission: the failure message\<close>

lemma errorMessage_quota:
  "response e = Some r \<Longrightarrow> status r = 429 \<Longrightarrow>
   errorMessage e = js ''API Quota Error (429): Your daily/minute limit has been reached. Please wait.''"
  by (simp add: errorMessage_def)

lemma errorMessage_server:
  "response e = Some r \<Longrightarrow> status r \<noteq> 429 \<Longrightarrow> error (data r) = Some t \<Longrightarrow> t \<noteq> [] \<Longrightarrow>
   errorMessage e = js ''Server Error ('' @ Number_toString (int (status r)) @ js ''): '' @ t"
  by (simp add: errorMessage_def)

lemma errorMessage_http:
  "response e = Some r \<Longrightarrow> status r \<noteq> 429 \<Longrightarrow> error (data r) = None \<or> error (data r) = Some [] \<Longrightarrow>
   errorMessage e = js ''HTTP Error '' @ Number_toString (int (status r)) @ js '': '' @ statusText r"
  by (auto simp: errorMessage_def)

lemma errorMessage_network:
  "response e = None \<Longrightarrow> request e \<Longrightarrow>
   errorMessage e = js ''Network Error: The server did not respond.''"
  by (simp add: errorMessage_def)

lemma errorMessage_local:
  "response e = None \<Longrightarrow> \<not> request e \<Longrightarrow> errorMessage e = error_message e"
  by (simp add: errorMessage_def)


text \<open>
  Claim C2, as amended. For every failed \<open>POST /items\<close> submission exactly one assistant
  message is appended, whose content is \<open>Error: \<close> followed by the text of the first case
  that applies: a response with status 429, whatever its body, gives the quota text; a
  response whose body has a non-empty error field gives
  \<open>Server Error (<status>): <error text>\<close>; any other response (no error field, or an
  empty one) gives \<open>HTTP Error <status>: <status text>\<close>; a request without a response
  gives \<open>Network Error: The server did not respond.\<close>; any other failure gives its raw
  description.
\<close>

theorem failure_message_content:
  "(\<forall>r. response e = Some r \<and> status r = 429 \<longrightarrow>
      conversation (handleSendClick_settled (Inl e) s) =
        conversation s @
          [assistant_message
             (js ''Error: API Quota Error (429): Your daily/minute limit has been reached. Please wait.'')]) \<and>
   (\<forall>r t. response e = Some r \<and> status r \<noteq> 429 \<and> error (data r) = Some t \<and> t \<noteq> [] \<longrightarrow>
      conversation (handleSendClick_settled (Inl e) s) =
        conversation s @
          [assistant_message
             (js ''Error: Server Error ('' @ Number_toString (int (status r)) @ js ''): '' @ t)]) \<and>
   (\<forall>r. response e = Some r \<and> status r \<noteq> 429 \<and>
        (error (data r) = None \<or> error (data r) = Some []) \<longrightarrow>
      conversation (handleSendClick_settled (Inl e) s) =
        conversation s @
          [assistant_message
             (js ''Error: HTTP Error '' @ Number_toString (int (status r)) @ js '': '' @ statusText r)]) \<and>
   (response e = None \<and> request e \<longrightarrow>
      conversation (handleSendClick_settled (Inl e) s) =
        conversation s @
          [assistant_message (js ''Error: Network Error: The server did not respond.'')]) \<and>
   (response e = None \<and> \<not> request e \<longrightarrow>
      conversation (handleSendClick_settled (Inl e) s) =
        conversation s @ [assistant_message (js ''Error: '' @ error_message e)])"
proof -
  have conv: "conversation (handleSendClick_settled (Inl e) s) =
      conversation s @ [assistant_message (js ''Error: '' @ errorMessage e)]"
    by (simp add: conversation_settled)
  show ?thesis
    unfolding conv
    by (auto simp: errorMessage_quota errorMessage_server errorMessage_http
        errorMessage_network errorMessage_local js_def)
qed


lemma Number_toString_400: "Number_toString 400 = js ''400''"
  by (simp add: Number_toString_def digits.simps digit_char_def js_def)

lemma Number_toString_500: "Number_toString 500 = js ''500''"
  by (simp add: Number_toString_def digits.simps digit_char_def js_def)

text \<open>One failure of each kind.\<close>

theorem failure_message_content_witness:
  "conversation (handleSendClick_settled
      (Inl \<lparr>response = Some \<lparr>status = 429, statusText = js ''TOO MANY REQUESTS'',
                              data = \<lparr>error = Some (js ''quota'')\<rparr>\<rparr>,
            request = True, error_message = js ''Request failed with status code 429''\<rparr>)
      milk_sent) =
     [\<lparr>role = User, content = js ''add milk'', reminders = None\<rparr>,
      assistant_message
        (js ''Error: API Quota Error (429): Your daily/minute limit has been reached. Please wait.'')] \<and>
   conversation (handleSendClick_settled
      (Inl \<lparr>response = Some \<lparr>status = 400, statusText = js ''BAD REQUEST'',
                              data = \<lparr>error = Some (js ''No prompt'')\<rparr>\<rparr>,
            request = True, error_message = js ''Request failed with status code 400''\<rparr>)
      milk_sent) =
     [\<lparr>role = User, content = js ''add milk'', reminders = None\<rparr>,
      assistant_message (js ''Error: Server Error (400): No prompt'')] \<and>
   conversation (handleSendClick_settled
      (Inl \<lparr>response = Some \<lparr>status = 500, statusText = js ''INTERNAL SERVER ERROR'',
                              data = \<lparr>error = None\<rparr>\<rparr>,
            request = True, error_message = js ''Request failed with status code 500''\<rparr>)
      milk_sent) =
     [\<lparr>role = User, content = js ''add milk'', reminders = None\<rparr>,
      assistant_message (js ''Error: HTTP Error 500: INTERNAL SERVER ERROR'')] \<and>
   conversation (handleSendClick_settled
      (Inl \<lparr>response = None, request = True, error_message = js ''Network Error''\<rparr>) milk_sent) =
     [\<lparr>role = User, content = js ''add milk'', reminders = None\<rparr>,
      assistant_message (js ''Error: Network Error: The server did not respond.'')] \<and>
   conversation (handleSendClick_settled
      (Inl \<lparr>response = None, request = False, error_message = js ''Invalid URL''\<rparr>) milk_sent) =
     [\<lparr>role = User, content = js ''add milk'', reminders = None\<rparr>,
      assistant_message (js ''Error: Invalid URL'')]"
proof -
  have c: "conversation milk_sent = [\<lparr>role = User, content = js ''add milk'', reminders = None\<rparr>]"
    by (simp add: milk_sent)
  have l1: "js ''Error: Server Error ('' @ js ''400'' @ js ''): '' @ js ''No prompt'' =
            js ''Error: Server Error (400): No prompt''"
    by (simp add: js_def)
  have l2: "js ''Error: HTTP Error '' @ js ''500'' @ js '': '' @ js ''INTERNAL SERVER ERROR'' =
            js ''Error: HTTP Error 500: INTERNAL SERVER ERROR''"
    by (simp add: js_def)
  have l3: "js ''Error: '' @ js ''Invalid URL'' = js ''Error: Invalid URL''"
    by (simp add: js_def)
  have n: "js ''No prompt'' \<noteq> []"
    by (simp add: js_def)
  show ?thesis
    using
      failure_message_content [of "\<lparr>response = Some \<lparr>status = 429, statusText = js ''TOO MANY REQUESTS'',
                              data = \<lparr>error = Some (js ''quota'')\<rparr>\<rparr>,
            request = True, error_message = js ''Request failed with status code 429''\<rparr>" milk_sent]
      failure_message_content [of "\<lparr>response = Some \<lparr>status = 400, statusText = js ''BAD REQUEST'',
                              data = \<lparr>error = Some (js ''No prompt'')\<rparr>\<rparr>,
            request = True, error_message = js ''Request failed with status code 400''\<rparr>" milk_sent]
      failure_message_content [of "\<lparr>response = Some \<lparr>status = 500, statusText = js ''INTERNAL SERVER ERROR'',
                              data = \<lparr>error = None\<rparr>\<rparr>,
            request = True, error_message = js ''Request failed with status code 500''\<rparr>" milk_sent]
      failure_message_content [of "\<lparr>response = None, request = True, error_message = js ''Network Error''\<rparr>" milk_sent]
      failure_message_content [of "\<lparr>response = None, request = False, error_message = js ''Invalid URL''\<rparr>" milk_sent]
    by (simp add: c n Number_toString_400 Number_toString_500 l1 l2 l3)
qed

text \<open>
  Claim C2 as stated fails where the error field is present and empty: the body
  \<open>{error: ""}\<close> with status 400 has an error field, and the content is the
  \<open>HTTP Error\<close> text, not \<open>Server Error (400): \<close>.
\<close>

theorem failure_message_counterexample:
  "error (data \<lparr>status = 400, statusText = js ''BAD REQUEST'', data = \<lparr>error = Some []\<rparr>\<rparr>) = Some [] \<and>
   conversation (handleSendClick_settled
      (Inl \<lparr>response = Some \<lparr>status = 400, statusText = js ''BAD REQUEST'',
                              data = \<lparr>error = Some []\<rparr>\<rparr>,
            request = True, error_message = js ''Request failed with status code 400''\<rparr>)
      milk_sent) =
     [\<lparr>role = User, content = js ''add milk'', reminders = None\<rparr>,
      assistant_message (js ''Error: HTTP Error 400: BAD REQUEST'')] \<and>
   conversation (handleSendClick_settled
      (Inl \<lparr>response = Some \<lparr>status = 400, statusText = js ''BAD REQUEST'',
                              data = \<lparr>error = Some []\<rparr>\<rparr>,
            request = True, error_message = js ''Request failed with status code 400''\<rparr>)
      milk_sent) \<noteq>
     [\<lparr>role = User, content = js ''add milk'', reminders = None\<rparr>,
      assistant_message (js ''Error: Server Error (400): '')]"
  by (simp add: conversation_settled errorMessage_def milk_sent Number_toString_400)
     (simp add: js_def)

section \<open>Frame lemmas of the flows\<close>

lemma filter_settle_same:
  "length (filter p (settle p rs)) = length (filter p rs) - 1"
  by (induction rs) auto

lemma filter_settle_other:
  "(\<And>r. q r \<Longrightarrow> \<not> p r) \<Longrightarrow> filter p (settle q rs) = filter p rs"
  by (induction rs) auto

lemma settled_in_flight:
  "in_flight (handleSendClick_settled outcome s) =
     settle is_post (in_flight s) @ (if triggerFetch s then [] else [GetItems])"
  by (simp add: handleSendClick_settled_def handleSendClick_finally_def setTriggerFetch_def
      onLoadingChange_def send_def onAiMessage_def handleAiMessage_def Let_def split: sum.split)

lemma settled_isLoading: "isLoading (handleSendClick_settled outcome s) = False"
  by (simp add: handleSendClick_settled_def handleSendClick_finally_def setTriggerFetch_def
      onLoadingChange_def send_def Let_def)

lemma settled_triggerFetch: "triggerFetch (handleSendClick_settled outcome s) = True"
  by (simp add: handleSendClick_settled_def handleSendClick_finally_def setTriggerFetch_def
      onLoadingChange_def send_def Let_def)

lemma settled_groceryList:
  "groceryList (handleSendClick_settled outcome s) = groceryList s"
  by (simp add: handleSendClick_settled_def handleSendClick_finally_def setTriggerFetch_def
      onLoadingChange_def send_def onAiMessage_def handleAiMessage_def Let_def split: sum.split)

lemma expiry_settled_frame:
  "in_flight (handleCheckExpiries_settled outcome s) = settle is_expiry (in_flight s) \<and>
   isLoading (handleCheckExpiries_settled outcome s) = isLoading s \<and>
   groceryList (handleCheckExpiries_settled outcome s) = groceryList s \<and>
   triggerFetch (handleCheckExpiries_settled outcome s) = triggerFetch s"
  by (simp add: handleCheckExpiries_settled_def handleAiMessage_def Let_def
      split: sum.split option.split)

lemma items_settled_frame:
  "in_flight (fetchGroceryList_settled outcome s) = settle is_items (in_flight s) \<and>
   isLoading (fetchGroceryList_settled outcome s) = isLoading s \<and>
   conversation (fetchGroceryList_settled outcome s) = conversation s \<and>
   triggerFetch (fetchGroceryList_settled outcome s) = triggerFetch s"
  by (simp add: fetchGroceryList_settled_def setGroceryList_def Let_def split: sum.split)

lemma send_click_frame:
  "groceryList (handleSendClick s) = groceryList s \<and>
   triggerFetch (handleSendClick s) = triggerFetch s"
  by (simp add: handleSendClick_def Let_def send_def setQuestion_def handleUserMessage_def
      onLoadingChange_def)

lemma check_expiries_frame:
  "in_flight (handleCheckExpiries s) = in_flight s @ [GetExpiry] \<and>
   isLoading (handleCheckExpiries s) = isLoading s \<and>
   groceryList (handleCheckExpiries s) = groceryList s \<and>
   triggerFetch (handleCheckExpiries s) = triggerFetch s"
  by (simp add: handleCheckExpiries_def send_def handleUserMessage_def)

lemma expiry_is_no_post: "is_expiry r \<Longrightarrow> \<not> is_post r"
  by (cases r) auto

lemma items_is_no_post: "is_items r \<Longrightarrow> \<not> is_post r"
  by (cases r) auto

lemma posts_step:
  assumes "length (filter is_post (in_flight s)) = (if isLoading s then 1 else 0)"
  shows "length (filter is_post (in_flight (step e s))) = (if isLoading (step e s) then 1 else 0)"
proof (cases e)
  case (Typed q)
  with assms show ?thesis by (simp add: setQuestion_def)
next
  case SendClick
  with assms show ?thesis
    by (auto simp: handleSendClick_def Let_def send_def setQuestion_def handleUserMessage_def
        onLoadingChange_def split: if_splits)
next
  case (PostSettled outcome)
  with assms show ?thesis
    by (simp add: settled_in_flight settled_isLoading filter_settle_same)
next
  case CheckExpiriesClick
  with assms show ?thesis
    by (simp add: check_expiries_frame)
next
  case (ExpirySettled outcome)
  with assms show ?thesis
    by (simp add: expiry_settled_frame filter_settle_other [of is_expiry is_post]
        expiry_is_no_post)
next
  case (ItemsSettled outcome)
  with assms show ?thesis
    by (simp add: items_settled_frame filter_settle_other [of is_items is_post]
        items_is_no_post)
qed

lemma reachable_mounted: "reachable mounted"
  using reachable_from.at_mount [of "[]"] by (auto simp: reachable_def hydrate_def)

lemma reachable_step: "reachable s \<Longrightarrow> enabled e s \<Longrightarrow> reachable (step e s)"
  by (auto simp: reachable_def intro: reachable_from.after_event)

lemma reachable_from_no_history: "reachable_from [] mounted"
  using reachable_from.at_mount [of "[]"] by (simp add: hydrate_def)

lemma posts_in_flight_from:
  "reachable_from history s \<Longrightarrow>
   length (filter is_post (in_flight s)) = (if isLoading s then 1 else 0)"
proof (induction rule: reachable_from.induct)
  case at_mount
  show ?case by (simp add: hydrate_def mounted_def)
next
  case (after_event s e)
  then show ?case by (simp add: posts_step)
qed

lemma posts_in_flight:
  "reachable s \<Longrightarrow> length (filter is_post (in_flight s)) = (if isLoading s then 1 else 0)"
  by (auto simp: reachable_def dest: posts_in_flight_from)

section \<open>The entry guard\<close>

text \<open>
  Claim C3. When the trimmed input is empty or the loading flag is set, \<open>handleSendClick\<close>
  returns the state it was given: the conversation is unchanged, no message is appended
  and no request is sent. In every reachable state, whatever history the mount hydrated,
  the loading flag is set exactly when a
  \<open>POST /items\<close> is in flight, and at most one is in flight.
\<close>

theorem guard_rejects_submission:
  "(trim (question s) = [] \<or> isLoading s \<longrightarrow> handleSendClick s = s) \<and>
   (reachable s \<longrightarrow>
      length (filter is_post (in_flight s)) \<le> 1 \<and>
      (isLoading s = list_ex is_post (in_flight s)))"
proof -
  have "length (filter is_post (in_flight s)) \<le> 1 \<and> (isLoading s = list_ex is_post (in_flight s))"
    if "reachable s"
  proof -
    have n: "length (filter is_post (in_flight s)) = (if isLoading s then 1 else 0)"
      using that by (rule posts_in_flight)
    have "list_ex is_post (in_flight s) = (filter is_post (in_flight s) \<noteq> [])"
      by (simp add: list_ex_iff filter_empty_conv)
    with n show ?thesis by (auto split: if_splits)
  qed
  then show ?thesis by (simp add: handleSendClick_def)
qed


text \<open>A whitespace-only input, and a second attempt while the first submission is in
  flight.\<close>

theorem guard_rejects_submission_witness:
  "handleSendClick (step (Typed [0x20, 0x09, 0xA0]) mounted) = step (Typed [0x20, 0x09, 0xA0]) mounted \<and>
   handleSendClick
     (step (Typed (js ''add eggs'')) (step SendClick (step (Typed (js ''add milk'')) mounted))) =
     step (Typed (js ''add eggs'')) (step SendClick (step (Typed (js ''add milk'')) mounted)) \<and>
   length (filter is_post (in_flight
     (step (Typed (js ''add eggs'')) (step SendClick (step (Typed (js ''add milk'')) mounted))))) \<le> 1 \<and>
   in_flight (step (Typed (js ''add eggs'')) (step SendClick (step (Typed (js ''add milk'')) mounted))) =
     [GetItems, PostItems (js ''add milk'')]"
proof -
  let ?blank = "step (Typed [0x20, 0x09, 0xA0]) mounted"
  let ?busy = "step (Typed (js ''add eggs'')) (step SendClick (step (Typed (js ''add milk'')) mounted))"
  have blank: "trim (question ?blank) = []"
    by (simp add: setQuestion_def mounted_def trim_def is_js_space_def)
  have milk: "trim (js ''add milk'') = js ''add milk''" "js ''add milk'' \<noteq> []"
    by (simp_all add: trim_def js_def is_js_space_def)
  have busy: "isLoading ?busy" "in_flight ?busy = [GetItems, PostItems (js ''add milk'')]"
    by (simp_all add: handleSendClick_def setQuestion_def mounted_def milk send_def
        handleUserMessage_def onLoadingChange_def Let_def)
  have r: "reachable ?busy"
    by (intro reachable_step reachable_mounted) simp_all
  have "handleSendClick ?blank = ?blank"
    using guard_rejects_submission [of ?blank] blank by blast
  moreover have "handleSendClick ?busy = ?busy"
    using guard_rejects_submission [of ?busy] busy(1) by blast
  moreover have "length (filter is_post (in_flight ?busy)) \<le> 1"
    using guard_rejects_submission [of ?busy] r by blast
  ultimately show ?thesis
    using busy(2) by blast
qed

section \<open>The refetch trigger\<close>

text \<open>
  Claim C6, on the code. The \<open>finally\<close> block calls \<open>setTriggerFetch(true)\<close>, and the effect
  that refetches runs when \<open>triggerFetch\<close> changes. The first completed submission changes
  it from false to true and one \<open>GET /items\<close> is sent. After the second completed
  submission it is still true, and no \<open>GET /items\<close> is sent.
\<close>

theorem second_submission_sends_no_refetch:
  "in_flight (run [ItemsSettled (Inr (JArr [])), Typed (js ''add milk''), SendClick,
                   PostSettled (Inr \<lparr>message = Some (js ''Added milk''), count = None\<rparr>)] mounted) =
     [GetItems] \<and>
   in_flight (run [ItemsSettled (Inr (JArr [])), Typed (js ''add milk''), SendClick,
                   PostSettled (Inr \<lparr>message = Some (js ''Added milk''), count = None\<rparr>),
                   ItemsSettled (Inr (JArr []))] mounted) = [] \<and>
   triggerFetch (run [ItemsSettled (Inr (JArr [])), Typed (js ''add milk''), SendClick,
                   PostSettled (Inr \<lparr>message = Some (js ''Added milk''), count = None\<rparr>),
                   ItemsSettled (Inr (JArr []))] mounted) = True \<and>
   in_flight (run [ItemsSettled (Inr (JArr [])), Typed (js ''add milk''), SendClick,
                   PostSettled (Inr \<lparr>message = Some (js ''Added milk''), count = None\<rparr>),
                   ItemsSettled (Inr (JArr [])), Typed (js ''add eggs''), SendClick] mounted) =
     [PostItems (js ''add eggs'')] \<and>
   in_flight (run [ItemsSettled (Inr (JArr [])), Typed (js ''add milk''), SendClick,
                   PostSettled (Inr \<lparr>message = Some (js ''Added milk''), count = None\<rparr>),
                   ItemsSettled (Inr (JArr [])), Typed (js ''add eggs''), SendClick,
                   PostSettled (Inr \<lparr>message = Some (js ''Added eggs''), count = None\<rparr>)] mounted) = []"
proof -
  have milk: "trim (js ''add milk'') = js ''add milk''" "js ''add milk'' \<noteq> []"
    by (simp_all add: trim_def js_def is_js_space_def)
  have eggs: "trim (js ''add eggs'') = js ''add eggs''" "js ''add eggs'' \<noteq> []"
    by (simp_all add: trim_def js_def is_js_space_def)
  show ?thesis
    by (simp add: run_def mounted_def fetchGroceryList_settled_def setGroceryList_def
        setQuestion_def handleSendClick_def milk eggs send_def handleUserMessage_def
        onLoadingChange_def handleSendClick_settled_def handleSendClick_finally_def
        setTriggerFetch_def onAiMessage_def handleAiMessage_def Let_def)
qed

text \<open>In general: once the flag is true, a settling submission sends nothing.\<close>

lemma no_refetch_once_triggered:
  "triggerFetch s \<Longrightarrow>
   in_flight (handleSendClick_settled outcome s) = settle is_post (in_flight s)"
  by (simp add: settled_in_flight)

section \<open>The expiry check on an empty array\<close>

text \<open>
  Claim C7, on the code. An empty array fails the first test (its length is 0) and passes
  the second (\<open>typeof [] === "object"\<close>), so the assistant message is the header followed
  by the dump \<open>[]\<close>, not the fixed message that no items are expiring soon.
\<close>

theorem empty_expiry_array_is_dumped:
  "conversation (run [CheckExpiriesClick, ExpirySettled (Inr (JArr []))] mounted) =
     [\<lparr>role = User, content = js ''Show me a list of all expiring items in the next 7 days.'',
       reminders = None\<rparr>,
      assistant_message (js ''Expiring items:'' @ [0x0A, 0x0A] @ js ''[]'')] \<and>
   conversation (run [CheckExpiriesClick, ExpirySettled (Inr (JArr []))] mounted) \<noteq>
     [\<lparr>role = User, content = js ''Show me a list of all expiring items in the next 7 days.'',
       reminders = None\<rparr>,
      assistant_message (js ''Great news! No items are expiring soon.'')]"
  by (simp add: run_def mounted_def handleCheckExpiries_def handleCheckExpiries_settled_def
      send_def handleUserMessage_def handleAiMessage_def expiryMessage_def JSON_stringify_2_def
      wrap_def Let_def)
     (simp add: js_def)


text \<open>
  The other branches behave as described: a non-empty array of strings gives the bulleted
  listing, an object gives the indented dump, and a missing body (\<open>null\<close>, or the empty
  string that axios passes for an empty response) gives the fixed message. An entry that
  is an object with a member named \<open>toString\<close> makes the template literal throw, and
  the \<open>catch\<close> block answers.
\<close>

lemma expiry_listing_example:
  "expiryMessage (JArr [JStr (js ''milk''), JStr (js ''eggs'')]) =
     Some (js ''Expiring items:'' @ [0x0A, 0x0A] @
           [0x2022, 0x20] @ js ''milk'' @ [0x0A] @ [0x2022, 0x20] @ js ''eggs'')"
  by (simp add: expiryMessage_def)

lemma expiry_dump_example:
  \<open>expiryMessage (JObj [(js ''milk'', JStr (js ''2025-01-01'')), (js ''eggs'', JArr [JNull, JBool True])]) =
     Some (js ''Expiring items:'' @ [0x0A, 0x0A] @
           js ''{'' @ [0x0A] @
           js ''  "milk": "2025-01-01",'' @ [0x0A] @
           js ''  "eggs": ['' @ [0x0A] @
           js ''    null,'' @ [0x0A] @
           js ''    true'' @ [0x0A] @
           js ''  ]'' @ [0x0A] @
           js ''}'')\<close>
  by (simp add: expiryMessage_def JSON_stringify_2_def wrap_def QuoteJSONString_def quote_unit_def
      is_leading_surrogate_def is_trailing_surrogate_def js_def)

lemma expiry_absent:
  "expiryMessage JNull = Some (js ''Great news! No items are expiring soon.'')"
  "expiryMessage (JStr t) = Some (js ''Great news! No items are expiring soon.'')"
  by (simp_all add: expiryMessage_def)

lemma expiry_listing:
  assumes "xs \<noteq> []"
  shows "expiryMessage (JArr (map JStr xs)) =
     Some (js ''Expiring items:'' @ [0x0A, 0x0A] @ join [0x0A] (map (\<lambda>t. [0x2022, 0x20] @ t) xs))"
proof -
  have lines: "those (map (\<lambda>item. map_option f (ToString item)) (map JStr xs)) = Some (map f xs)"
    for f :: "jstring \<Rightarrow> jstring"
    by (induction xs) simp_all
  have "Array_isArray (JArr (map JStr xs)) \<and> array_length (JArr (map JStr xs)) > 0"
    using assms by simp
  then show ?thesis
    unfolding expiryMessage_def
    by (simp only: array_items.simps lines option.map simp_thms if_True)
qed

lemma expiry_object_throws:
  "expiryMessage (JArr [JObj [(js ''toString'', JNull)]]) = None"
  by (simp add: expiryMessage_def)

section \<open>The cached grocery list\<close>

text \<open>
  Claim C8. A failed refetch changes nothing but the set of requests in flight, from which
  the settled one is removed: the cached list is unchanged and no request is sent again.
  Whatever event changes the cached list is a successful \<open>GET /items\<close> response, and the
  list becomes its body.
\<close>

theorem failed_refetch_keeps_list:
  "fetchGroceryList_settled (Inl e) s = s\<lparr>in_flight := settle is_items (in_flight s)\<rparr> \<and>
   groceryList (fetchGroceryList_settled (Inl e) s) = groceryList s \<and>
   (groceryList (step ev s) \<noteq> groceryList s \<longrightarrow>
      (\<exists>d. ev = ItemsSettled (Inr d) \<and> groceryList (step ev s) = d))"
proof -
  have "\<exists>d. ev = ItemsSettled (Inr d) \<and> groceryList (step ev s) = d"
    if "groceryList (step ev s) \<noteq> groceryList s"
  proof (cases ev)
    case (ItemsSettled outcome)
    with that show ?thesis
      by (cases outcome) (simp_all add: fetchGroceryList_settled_def setGroceryList_def Let_def)
  qed (use that in \<open>simp_all add: setQuestion_def send_click_frame settled_groceryList
        check_expiries_frame expiry_settled_frame\<close>)
  then show ?thesis
    by (simp add: fetchGroceryList_settled_def Let_def)
qed

text \<open>A list is cached, a submission triggers a refetch, and the refetch fails.\<close>

theorem failed_refetch_keeps_list_witness:
  "groceryList (run [ItemsSettled (Inr (JArr [JStr (js ''milk'')])), Typed (js ''add eggs''), SendClick,
                     PostSettled (Inr \<lparr>message = None, count = Some (Number (js ''1''))\<rparr>),
                     ItemsSettled (Inl \<lparr>response = None, request = True,
                                        error_message = js ''Network Error''\<rparr>)] mounted) =
     JArr [JStr (js ''milk'')] \<and>
   in_flight (run [ItemsSettled (Inr (JArr [JStr (js ''milk'')])), Typed (js ''add eggs''), SendClick,
                   PostSettled (Inr \<lparr>message = None, count = Some (Number (js ''1''))\<rparr>),
                   ItemsSettled (Inl \<lparr>response = None, request = True,
                                      error_message = js ''Network Error''\<rparr>)] mounted) = [] \<and>
   groceryList (step (ItemsSettled (Inr (JArr [JStr (js ''milk'')]))) mounted) =
     JArr [JStr (js ''milk'')]"
proof -
  let ?e = "\<lparr>response = None, request = True, error_message = js ''Network Error''\<rparr>"
  let ?ok = "ItemsSettled (Inr (JArr [JStr (js ''milk'')]))"
  let ?es = "[?ok, Typed (js ''add eggs''), SendClick,
              PostSettled (Inr \<lparr>message = None, count = Some (Number (js ''1''))\<rparr>)]"
  have eggs: "trim (js ''add eggs'') = js ''add eggs''" "js ''add eggs'' \<noteq> []"
    by (simp_all add: trim_def js_def is_js_space_def)
  have before: "groceryList (run ?es mounted) = JArr [JStr (js ''milk'')]"
    "in_flight (run ?es mounted) = [GetItems]"
    by (simp_all add: run_def mounted_def fetchGroceryList_settled_def setGroceryList_def
        setQuestion_def handleSendClick_def eggs send_def handleUserMessage_def
        onLoadingChange_def handleSendClick_settled_def handleSendClick_finally_def
        setTriggerFetch_def onAiMessage_def handleAiMessage_def Let_def)
  have after: "run (?es @ [ItemsSettled (Inl ?e)]) mounted =
      fetchGroceryList_settled (Inl ?e) (run ?es mounted)"
    by (simp add: run_def)
  have changed: "groceryList (step ?ok mounted) \<noteq> groceryList mounted"
    by (simp add: fetchGroceryList_settled_def setGroceryList_def mounted_def Let_def)
  have "fetchGroceryList_settled (Inl ?e) (run ?es mounted) =
      (run ?es mounted)\<lparr>in_flight := settle is_items (in_flight (run ?es mounted))\<rparr>"
    using failed_refetch_keeps_list [of ?e "run ?es mounted"] by blast
  then have "groceryList (run (?es @ [ItemsSettled (Inl ?e)]) mounted) = JArr [JStr (js ''milk'')]"
    "in_flight (run (?es @ [ItemsSettled (Inl ?e)]) mounted) = []"
    by (simp_all only: after) (simp_all add: before)
  moreover have "\<exists>d. ?ok = ItemsSettled (Inr d) \<and> groceryList (step ?ok mounted) = d"
    using failed_refetch_keeps_list [of ?e mounted ?ok] changed by blast
  then have "groceryList (step ?ok mounted) = JArr [JStr (js ''milk'')]"
    by auto
  ultimately show ?thesis
    by simp
qed

section \<open>Reminders of assistant messages\<close>

lemma conversation_step:
  "\<exists>ms. conversation (step e s) = conversation s @ ms \<and>
        (\<forall>m \<in> set ms. role m = Ai \<longrightarrow> reminders m = Some [])"
proof (cases e)
  case (Typed q)
  then show ?thesis by (simp add: setQuestion_def)
next
  case SendClick
  then show ?thesis
    by (simp add: handleSendClick_def Let_def send_def setQuestion_def handleUserMessage_def
        onLoadingChange_def)
next
  case (PostSettled outcome)
  then show ?thesis by (simp add: conversation_settled)
next
  case CheckExpiriesClick
  then show ?thesis by (simp add: handleCheckExpiries_def send_def handleUserMessage_def)
next
  case (ExpirySettled outcome)
  then show ?thesis
    by (simp add: handleCheckExpiries_settled_def handleAiMessage_def Let_def
        split: sum.split option.split)
next
  case (ItemsSettled outcome)
  then show ?thesis by (simp add: items_settled_frame)
qed

lemma conversation_from:
  "reachable_from history s \<Longrightarrow>
   \<exists>appended. conversation s = history @ appended \<and>
              (\<forall>m \<in> set appended. role m = Ai \<longrightarrow> reminders m = Some [])"
proof (induction rule: reachable_from.induct)
  case at_mount
  show ?case by (simp add: hydrate_def mounted_def)
next
  case (after_event s e)
  then obtain appended where a: "conversation s = history @ appended"
    "\<forall>m \<in> set appended. role m = Ai \<longrightarrow> reminders m = Some []"
    by blast
  obtain ms where ms: "conversation (step e s) = conversation s @ ms"
    "\<forall>m \<in> set ms. role m = Ai \<longrightarrow> reminders m = Some []"
    using conversation_step by blast
  from a ms have "conversation (step e s) = history @ (appended @ ms)"
    "\<forall>m \<in> set (appended @ ms). role m = Ai \<longrightarrow> reminders m = Some []"
    by auto
  then show ?case by blast
qed

text \<open>
  Claim C10, as amended. \<open>handleAiMessage\<close> without a reminders argument, which is how
  every flow calls it, appends an assistant message whose reminders are the empty list.
  So in every reachable state the conversation is the history that the mount hydrated
  from the store, followed by messages whose assistant messages all have reminders equal
  to the empty list; and when the hydrated history has no assistant message with absent
  or non-empty reminders (in particular when nothing is stored), no reachable conversation
  has one.
\<close>

theorem assistant_reminders_empty:
  "conversation (handleAiMessage msg None s) = conversation s @ [assistant_message msg] \<and>
   conversation (onAiMessage msg s) = conversation s @ [assistant_message msg] \<and>
   (reachable_from history t \<longrightarrow>
      (\<exists>appended. conversation t = history @ appended \<and>
                  (\<forall>m \<in> set appended. role m = Ai \<longrightarrow> reminders m = Some []))) \<and>
   (reachable_from history t \<and> (\<forall>m \<in> set history. role m = Ai \<longrightarrow> reminders m = Some []) \<longrightarrow>
      (\<forall>m \<in> set (conversation t). role m = Ai \<longrightarrow> reminders m = Some []))"
proof -
  have "\<forall>m \<in> set (conversation t). role m = Ai \<longrightarrow> reminders m = Some []"
    if "reachable_from history t" "\<forall>m \<in> set history. role m = Ai \<longrightarrow> reminders m = Some []"
    using conversation_from [OF that(1)] that(2) by auto
  then show ?thesis
    by (auto simp: handleAiMessage_def onAiMessage_def dest: conversation_from)
qed

text \<open>A session that hydrates a stored exchange and then settles a submission, and the
  same submission in a session without stored history.\<close>

theorem assistant_reminders_empty_witness:
  "conversation (run [Typed (js ''add milk''), SendClick,
                      PostSettled (Inr \<lparr>message = Some (js ''Added milk''), count = None\<rparr>)]
      (hydrate [\<lparr>role = User, content = js ''hi'', reminders = None\<rparr>,
                assistant_message (js ''Great news! No items are expiring soon.'')] mounted)) =
     [\<lparr>role = User, content = js ''hi'', reminders = None\<rparr>,
      assistant_message (js ''Great news! No items are expiring soon.''),
      \<lparr>role = User, content = js ''add milk'', reminders = None\<rparr>,
      assistant_message (js ''Added milk'')] \<and>
   list_all (\<lambda>m. role m = User \<or> reminders m = Some [])
     (conversation (run [Typed (js ''add milk''), SendClick,
                      PostSettled (Inr \<lparr>message = Some (js ''Added milk''), count = None\<rparr>)]
      (hydrate [\<lparr>role = User, content = js ''hi'', reminders = None\<rparr>,
                assistant_message (js ''Great news! No items are expiring soon.'')] mounted))) \<and>
   list_all (\<lambda>m. role m = User \<or> reminders m = Some [])
     (conversation (run [Typed (js ''add milk''), SendClick,
                      PostSettled (Inr \<lparr>message = Some (js ''Added milk''), count = None\<rparr>)]
      mounted))"
proof -
  let ?h = "[\<lparr>role = User, content = js ''hi'', reminders = None\<rparr>,
             assistant_message (js ''Great news! No items are expiring soon.'')]"
  let ?ok = "PostSettled (Inr \<lparr>message = Some (js ''Added milk''), count = None\<rparr>)"
  let ?es = "[Typed (js ''add milk''), SendClick, ?ok]"
  have sent: "in_flight (handleSendClick (setQuestion (js ''add milk'') (hydrate h mounted))) =
      [GetItems, PostItems (js ''add milk'')]" for h
    by (simp add: handleSendClick_def setQuestion_def hydrate_def mounted_def trim_add_milk
        send_def handleUserMessage_def onLoadingChange_def Let_def)
  have r: "reachable_from h (run ?es (hydrate h mounted))" for h
  proof -
    have 0: "reachable_from h (hydrate h mounted)"
      by (rule reachable_from.at_mount)
    have 1: "reachable_from h (step (Typed (js ''add milk'')) (hydrate h mounted))"
      using 0 by (rule reachable_from.after_event) simp
    have 2: "reachable_from h (step SendClick (step (Typed (js ''add milk'')) (hydrate h mounted)))"
      using 1 by (rule reachable_from.after_event) simp
    have "enabled ?ok (step SendClick (step (Typed (js ''add milk'')) (hydrate h mounted)))"
      by (simp add: sent)
    with 2 have "reachable_from h
        (step ?ok (step SendClick (step (Typed (js ''add milk'')) (hydrate h mounted))))"
      by (rule reachable_from.after_event)
    then show ?thesis
      by (simp add: run_def)
  qed
  have user_or_empty: "list_all (\<lambda>m. role m = User \<or> reminders m = Some []) ms"
    if "\<forall>m \<in> set ms. role m = Ai \<longrightarrow> reminders m = Some []" for ms :: "ChatMessage list"
    unfolding list_all_iff
  proof
    fix m
    assume "m \<in> set ms"
    with that show "role m = User \<or> reminders m = Some []"
      by (cases "role m") auto
  qed
  have wf: "\<forall>m \<in> set ?h. role m = Ai \<longrightarrow> reminders m = Some []"
    by simp
  have a: "list_all (\<lambda>m. role m = User \<or> reminders m = Some [])
      (conversation (run ?es (hydrate ?h mounted)))"
  proof (rule user_or_empty)
    show "\<forall>m \<in> set (conversation (run ?es (hydrate ?h mounted))).
        role m = Ai \<longrightarrow> reminders m = Some []"
      using assistant_reminders_empty [of "[]" mounted ?h "run ?es (hydrate ?h mounted)"]
        r [of ?h] wf
      by blast
  qed
  have b: "list_all (\<lambda>m. role m = User \<or> reminders m = Some [])
      (conversation (run ?es mounted))"
  proof (rule user_or_empty)
    have "hydrate [] mounted = mounted"
      by (simp add: hydrate_def)
    with r [of "[]"] have "reachable_from [] (run ?es mounted)"
      by simp
    then show "\<forall>m \<in> set (conversation (run ?es mounted)). role m = Ai \<longrightarrow> reminders m = Some []"
      using assistant_reminders_empty [of "[]" mounted "[]" "run ?es mounted"]
      by simp
  qed
  have c: "conversation (run ?es (hydrate ?h mounted)) =
      ?h @ [\<lparr>role = User, content = js ''add milk'', reminders = None\<rparr>,
            assistant_message (js ''Added milk'')]"
    by (simp add: run_def conversation_settled aiContent_def Let_def handleSendClick_def
        setQuestion_def hydrate_def mounted_def trim_add_milk send_def handleUserMessage_def
        onLoadingChange_def)
       (simp add: js_def)
  from a b c show ?thesis
    by simp
qed

text \<open>
  Claim C10 as stated fails for a session that finds a stored history: the stored text
  \<open>[{"role":"ai","content":"hi"}]\<close> is a JSON array, \<open>readHistory\<close> returns it, and the
  mount puts it into the conversation, whose assistant message has no reminders.
\<close>

theorem hydrated_reminders_counterexample:
  \<open>readHistory Number
     \<lparr>entries = [STORAGE_KEY \<mapsto> js ''[{"role":"ai","content":"hi"}]''], denied = False,
      capacity = 5000000\<rparr> =
     map json_of_ChatMessage [\<lparr>role = Ai, content = js ''hi'', reminders = None\<rparr>] \<and>
   reachable (hydrate [\<lparr>role = Ai, content = js ''hi'', reminders = None\<rparr>] mounted) \<and>
   conversation (hydrate [\<lparr>role = Ai, content = js ''hi'', reminders = None\<rparr>] mounted) =
     [\<lparr>role = Ai, content = js ''hi'', reminders = None\<rparr>] \<and>
   reminders \<lparr>role = Ai, content = js ''hi'', reminders = None\<rparr> \<noteq> Some []\<close>
proof -
  have parsed: \<open>JSON_parse Number (js ''[{"role":"ai","content":"hi"}]'') =
      Some (JArr [JObj [(js ''role'', JStr (js ''ai'')), (js ''content'', JStr (js ''hi''))]])\<close>
    by (simp add: JSON_parse_def tokenize.simps is_json_space_def is_digit_def js_def
        parse_elements.simps parse_members.simps cons_unit_def)
  have nonempty: \<open>js ''[{"role":"ai","content":"hi"}]'' \<noteq> []\<close>
    by (simp add: js_def)
  have \<open>readHistory Number
      \<lparr>entries = [STORAGE_KEY \<mapsto> js ''[{"role":"ai","content":"hi"}]''], denied = False,
       capacity = 5000000\<rparr> =
      [JObj [(js ''role'', JStr (js ''ai'')), (js ''content'', JStr (js ''hi''))]]\<close>
    by (simp add: readHistory_def readHistory_try_def getItem_def parsed nonempty)
  moreover have "map json_of_ChatMessage [\<lparr>role = Ai, content = js ''hi'', reminders = None\<rparr>] =
      [JObj [(js ''role'', JStr (js ''ai'')), (js ''content'', JStr (js ''hi''))]]"
    by (simp add: json_of_ChatMessage_def json_of_Role_def)
  moreover have "reachable (hydrate [\<lparr>role = Ai, content = js ''hi'', reminders = None\<rparr>] mounted)"
    unfolding reachable_def by (blast intro: reachable_from.at_mount)
  moreover have "conversation (hydrate [\<lparr>role = Ai, content = js ''hi'', reminders = None\<rparr>] mounted) =
      [\<lparr>role = Ai, content = js ''hi'', reminders = None\<rparr>]"
    by (simp add: hydrate_def)
  ultimately show ?thesis
    by simp
qed

section \<open>Reading back what was written\<close>

subsection \<open>Strings\<close>

lemma hex_value_hex_digit: "d < 16 \<Longrightarrow> hex_value (hex_digit d) = Some d"
  by (simp add: hex_value_def hex_digit_def word_le_nat_alt unat_of_nat)

lemma hex_digits_value:
  "((n div 4096 * 16 + n div 256 mod 16) * 16 + n div 16 mod 16) * 16 + n mod 16 = (n::nat)"
proof -
  have "n div 256 = n div 16 div 16" "n div 4096 = n div 16 div 16 div 16"
    by (simp_all add: div_mult2_eq [symmetric])
  then show ?thesis
    by (simp add: div_mult_mod_eq)
qed

lemma hex4_UnicodeEscape:
  "hex4 (hex_digit (unat c div 4096)) (hex_digit (unat c div 256 mod 16))
        (hex_digit (unat c div 16 mod 16)) (hex_digit (unat c mod 16)) = Some c"
proof -
  have "unat c < 2 ^ LENGTH(16)"
    by (rule unsigned_less)
  then have d: "unat c div 4096 < 16" "unat c div 256 mod 16 < 16" "unat c div 16 mod 16 < 16"
    "unat c mod 16 < 16"
    by simp_all
  have "hex4 (hex_digit (unat c div 4096)) (hex_digit (unat c div 256 mod 16))
        (hex_digit (unat c div 16 mod 16)) (hex_digit (unat c mod 16)) =
      Some (word_of_nat (((unat c div 4096 * 16 + unat c div 256 mod 16) * 16 +
        unat c div 16 mod 16) * 16 + unat c mod 16))"
    by (simp only: hex4_def hex_value_hex_digit [OF d(1)] hex_value_hex_digit [OF d(2)]
        hex_value_hex_digit [OF d(3)] hex_value_hex_digit [OF d(4)] option.case)
  also have "\<dots> = Some (word_of_nat (unat c))"
    by (simp only: hex_digits_value)
  finally show ?thesis
    by simp
qed

lemma lex_string_escape:
  "lex_string (UnicodeEscape c @ s) = cons_unit c (lex_string s)"
  by (simp add: UnicodeEscape_def hex4_UnicodeEscape)

lemma lex_string_unit: "lex_string (quote_unit c @ s) = cons_unit c (lex_string s)"
proof -
  consider "c = 0x08" | "c = 0x09" | "c = 0x0A" | "c = 0x0C" | "c = 0x0D" | "c = 0x22" | "c = 0x5C"
    | "c \<notin> {0x08, 0x09, 0x0A, 0x0C, 0x0D, 0x22, 0x5C}"
      "c < 0x20 \<or> is_leading_surrogate c \<or> is_trailing_surrogate c"
    | "c \<notin> {0x08, 0x09, 0x0A, 0x0C, 0x0D, 0x22, 0x5C}"
      "\<not> (c < 0x20 \<or> is_leading_surrogate c \<or> is_trailing_surrogate c)"
    by blast
  then show ?thesis
  proof cases
    case 8
    then have "quote_unit c = UnicodeEscape c"
      by (simp add: quote_unit_def)
    then show ?thesis by (simp add: lex_string_escape)
  next
    case 9
    then have "quote_unit c = [c]" "c \<noteq> 0x22" "c \<noteq> 0x5C" "\<not> c < 0x20"
      by (simp_all add: quote_unit_def)
    then show ?thesis by simp
  qed (simp_all add: quote_unit_def escape_value_def)
qed

lemma lex_string_pair:
  "is_leading_surrogate c \<Longrightarrow> is_trailing_surrogate d \<Longrightarrow>
   lex_string (c # d # s) = cons_unit c (cons_unit d (lex_string s))"
proof -
  assume c: "is_leading_surrogate c" and d: "is_trailing_surrogate d"
  have "c \<noteq> 0x22" "c \<noteq> 0x5C" "\<not> c < 0x20"
    using c by (auto simp: is_leading_surrogate_def word_le_nat_alt word_less_nat_alt)
  moreover have "d \<noteq> 0x22" "d \<noteq> 0x5C" "\<not> d < 0x20"
    using d by (auto simp: is_trailing_surrogate_def word_le_nat_alt word_less_nat_alt)
  ultimately show ?thesis by simp
qed

lemma lex_string_quote_units:
  "lex_string (quote_units t @ 0x22 # rest) = Some (t, rest)"
proof (induction t rule: quote_units.induct)
  case 1
  show ?case by simp
next
  case (2 c)
  show ?case
    by (simp add: lex_string_unit cons_unit_def)
next
  case (3 c d cs)
  show ?case
  proof (cases "is_leading_surrogate c \<and> is_trailing_surrogate d")
    case True
    then have "quote_units (c # d # cs) @ 0x22 # rest = c # d # (quote_units cs @ 0x22 # rest)"
      by simp
    moreover have "lex_string (quote_units cs @ 0x22 # rest) = Some (cs, rest)"
      using True by (rule "3.IH"(1))
    ultimately show ?thesis
      using True by (simp only: lex_string_pair) (simp add: cons_unit_def)
  next
    case False
    then have "quote_units (c # d # cs) @ 0x22 # rest =
        quote_unit c @ (quote_units (d # cs) @ 0x22 # rest)"
      by auto
    moreover have "lex_string (quote_units (d # cs) @ 0x22 # rest) = Some (d # cs, rest)"
      using False by (rule "3.IH"(2))
    ultimately show ?thesis
      by (simp only: lex_string_unit) (simp add: cons_unit_def)
  qed
qed

subsection \<open>Tokens\<close>

lemma tokenize_LBrack: "tokenize (0x5B # s) = map_option (Cons LBrack) (tokenize s)"
  by (simp add: tokenize.simps(2) is_json_space_def)

lemma tokenize_RBrack: "tokenize (0x5D # s) = map_option (Cons RBrack) (tokenize s)"
  by (simp add: tokenize.simps(2) is_json_space_def)

lemma tokenize_LBrace: "tokenize (0x7B # s) = map_option (Cons LBrace) (tokenize s)"
  by (simp add: tokenize.simps(2) is_json_space_def)

lemma tokenize_RBrace: "tokenize (0x7D # s) = map_option (Cons RBrace) (tokenize s)"
  by (simp add: tokenize.simps(2) is_json_space_def)

lemma tokenize_Colon: "tokenize (0x3A # s) = map_option (Cons Colon) (tokenize s)"
  by (simp add: tokenize.simps(2) is_json_space_def)

lemma tokenize_Comma: "tokenize (0x2C # s) = map_option (Cons Comma) (tokenize s)"
  by (simp add: tokenize.simps(2) is_json_space_def)

lemma tokenize_null: "tokenize (js ''null'' @ s) = map_option (Cons TNull) (tokenize s)"
  by (simp add: tokenize.simps(2) is_json_space_def is_digit_def js_def)

lemma tokenize_true: "tokenize (js ''true'' @ s) = map_option (Cons TTrue) (tokenize s)"
  by (simp add: tokenize.simps(2) is_json_space_def is_digit_def js_def)

lemma tokenize_false: "tokenize (js ''false'' @ s) = map_option (Cons TFalse) (tokenize s)"
  by (simp add: tokenize.simps(2) is_json_space_def is_digit_def js_def)

lemma tokenize_quoted:
  "tokenize (QuoteJSONString t @ s) = map_option (Cons (TString t)) (tokenize s)"
  by (simp add: tokenize.simps(2) QuoteJSONString_def is_json_space_def lex_string_quote_units
      del: lex_string.simps)

lemma wrap_compact: "wrap [] stepback opening closing partial = opening @ join (js '','') partial @ closing"
  by (cases partial) (simp_all add: wrap_def)

lemma tokenize_join:
  assumes "\<And>x rest. x \<in> set xs \<Longrightarrow> tokenize (f x @ rest) = map_option ((@) (g x)) (tokenize rest)"
  shows "tokenize (join (js '','') (map f xs) @ rest) =
         map_option ((@) (join [Comma] (map g xs))) (tokenize rest)"
  using assms
proof (induction xs rule: induct_list012)
  case 1
  show ?case by (simp add: option.map_ident)
next
  case (2 x)
  then show ?case by simp
next
  case (3 x y zs)
  have "tokenize (join (js '','') (map f (y # zs)) @ rest) =
      map_option ((@) (join [Comma] (map g (y # zs)))) (tokenize rest)"
    using "3.prems" by (intro "3.IH"(2)) simp
  moreover have "js '','' = [0x2C]"
    by (simp add: js_def)
  ultimately show ?case
    using "3.prems" [of x]
    by (simp add: tokenize_Comma option.map_comp comp_def)
qed

lemma tokenize_serialize:
  "plain v \<Longrightarrow>
   tokenize (SerializeJSONProperty [] indent v @ rest) = map_option ((@) (toks v)) (tokenize rest)"
proof (induction v arbitrary: rest indent)
  case JNull
  show ?case by (simp add: tokenize_null)
next
  case (JBool b)
  show ?case by (simp add: tokenize_true tokenize_false)
next
  case (JNum n)
  then show ?case by simp
next
  case (JStr t)
  show ?case by (simp add: tokenize_quoted)
next
  case (JArr xs)
  have elems: "tokenize (join (js '','') (map (SerializeJSONProperty [] indent) xs) @ rest') =
      map_option ((@) (join [Comma] (map toks xs))) (tokenize rest')" for rest'
  proof (rule tokenize_join)
    fix x rest''
    assume "x \<in> set xs"
    moreover from this JArr.prems have "plain x"
      by (simp add: list_all_iff)
    ultimately show "tokenize (SerializeJSONProperty [] indent x @ rest'') =
        map_option ((@) (toks x)) (tokenize rest'')"
      by (rule JArr.IH)
  qed
  have "js ''['' = [0x5B]" "js '']'' = [0x5D]"
    by (simp_all add: js_def)
  then show ?case
    by (simp add: wrap_compact tokenize_LBrack tokenize_RBrack elems option.map_comp comp_def)
next
  case (JObj ms)
  let ?f = "\<lambda>(k, v). QuoteJSONString k @ js '':'' @ SerializeJSONProperty [] indent v"
  let ?g = "\<lambda>(k, v). TString k # Colon # toks v"
  have members: "tokenize (join (js '','') (map ?f ms) @ rest') =
      map_option ((@) (join [Comma] (map ?g ms))) (tokenize rest')" for rest'
  proof (rule tokenize_join)
    fix m rest''
    assume m: "m \<in> set ms"
    obtain k v where kv: "m = (k, v)"
      by (cases m)
    from m kv JObj.prems have "plain v"
      by (auto simp: list_all_iff)
    moreover from m kv have "v \<in> Basic_BNFs.snds m"
      by simp
    ultimately have "tokenize (SerializeJSONProperty [] indent v @ rest'') =
        map_option ((@) (toks v)) (tokenize rest'')"
      using m by (intro JObj.IH)
    moreover have "js '':'' = [0x3A]"
      by (simp add: js_def)
    ultimately show "tokenize (?f m @ rest'') = map_option ((@) (?g m)) (tokenize rest'')"
      by (cases "tokenize rest''") (simp_all add: kv tokenize_quoted tokenize_Colon)
  qed
  have "js ''{'' = [0x7B]" "js ''}'' = [0x7D]"
    by (simp_all add: js_def)
  then show ?case
    by (simp add: wrap_compact tokenize_LBrace tokenize_RBrace members option.map_comp comp_def)
qed

subsection \<open>Values\<close>

lemma toks_first: "\<exists>t ts. toks v = t # ts \<and> t \<noteq> RBrack \<and> t \<noteq> RBrace"
  by (cases v) simp_all

lemma toks_nonempty [simp]: "toks v \<noteq> []"
  by (cases v) simp_all

lemma join_first:
  "xs \<noteq> [] \<Longrightarrow> \<forall>x \<in> set xs. \<exists>t ts. f x = t # ts \<and> t \<noteq> RBrack \<and> t \<noteq> RBrace \<Longrightarrow>
   \<exists>t ts. join [Comma] (map f xs) = t # ts \<and> t \<noteq> RBrack \<and> t \<noteq> RBrace"
  by (induction xs rule: induct_list012) auto

lemma parse_value_array:
  "ts = t # ts' \<Longrightarrow> t \<noteq> RBrack \<Longrightarrow> parse_value nv (LBrack # ts) = parse_elements nv [] ts"
  by (cases t) simp_all

lemma parse_value_object:
  "ts = t # ts' \<Longrightarrow> t \<noteq> RBrace \<Longrightarrow> parse_value nv (LBrace # ts) = parse_members nv [] ts"
  by (cases t) simp_all

lemma parse_elements_more:
  "parse_value nv ts = Some (v, Comma # r) \<Longrightarrow> Suc (length r) < length ts \<Longrightarrow>
   parse_elements nv acc ts = parse_elements nv (acc @ [v]) r"
  by (subst parse_elements.simps) simp

lemma parse_elements_last:
  "parse_value nv ts = Some (v, RBrack # r) \<Longrightarrow> Suc (length r) < length ts \<Longrightarrow>
   parse_elements nv acc ts = Some (JArr (acc @ [v]), r)"
  by (subst parse_elements.simps) simp

lemma parse_members_more:
  "parse_value nv ts = Some (v, Comma # r) \<Longrightarrow> Suc (length r) < length ts \<Longrightarrow>
   parse_members nv acc (TString k # Colon # ts) = parse_members nv (define_member k v acc) r"
  by (subst parse_members.simps) simp

lemma parse_members_last:
  "parse_value nv ts = Some (v, RBrace # r) \<Longrightarrow> Suc (length r) < length ts \<Longrightarrow>
   parse_members nv acc (TString k # Colon # ts) = Some (JObj (define_member k v acc), r)"
  by (subst parse_members.simps) simp

lemma define_member_new: "k \<notin> fst ` set acc \<Longrightarrow> define_member k v acc = acc @ [(k, v)]"
  by (induction acc) auto

lemma parse_elements_toks:
  assumes "\<And>x rest. x \<in> set xs \<Longrightarrow> parse_value nv (toks x @ rest) = Some (x, rest)"
    and "xs \<noteq> []"
  shows "parse_elements nv acc (join [Comma] (map toks xs) @ RBrack # rest) =
         Some (JArr (acc @ xs), rest)"
  using assms
proof (induction xs arbitrary: acc rule: induct_list012)
  case 1
  then show ?case by simp
next
  case (2 x)
  have "parse_value nv (toks x @ RBrack # rest) = Some (x, RBrack # rest)"
    by (rule "2.prems"(1)) simp
  then have "parse_elements nv acc (toks x @ RBrack # rest) = Some (JArr (acc @ [x]), rest)"
    by (rule parse_elements_last) simp
  then show ?case
    by simp
next
  case (3 x y zs)
  let ?r = "join [Comma] (map toks (y # zs)) @ RBrack # rest"
  have "parse_value nv (toks x @ Comma # ?r) = Some (x, Comma # ?r)"
    by (rule "3.prems"(1)) simp
  then have "parse_elements nv acc (toks x @ Comma # ?r) = parse_elements nv (acc @ [x]) ?r"
    by (rule parse_elements_more) simp
  moreover have "parse_elements nv (acc @ [x]) ?r = Some (JArr ((acc @ [x]) @ y # zs), rest)"
    using "3.prems" by (intro "3.IH"(2)) simp_all
  ultimately show ?case by simp
qed

lemma parse_members_toks:
  assumes "\<And>k v rest. (k, v) \<in> set ms \<Longrightarrow> parse_value nv (toks v @ rest) = Some (v, rest)"
    and "ms \<noteq> []" and "distinct (map fst (acc @ ms))"
  shows "parse_members nv acc
           (join [Comma] (map (\<lambda>(k, v). TString k # Colon # toks v) ms) @ RBrace # rest) =
         Some (JObj (acc @ ms), rest)"
  using assms
proof (induction ms arbitrary: acc rule: induct_list012)
  case 1
  then show ?case by simp
next
  case (2 m)
  obtain k v where m: "m = (k, v)"
    by (cases m)
  have "parse_value nv (toks v @ RBrace # rest) = Some (v, RBrace # rest)"
    by (rule "2.prems"(1) [of k]) (simp add: m)
  then have "parse_members nv acc (TString k # Colon # toks v @ RBrace # rest) =
      Some (JObj (define_member k v acc), rest)"
    by (rule parse_members_last) simp
  moreover have "k \<notin> fst ` set acc"
    using "2.prems"(3) by (auto simp: m)
  ultimately show ?case
    by (simp add: m define_member_new)
next
  case (3 m n ms)
  obtain k v where m: "m = (k, v)"
    by (cases m)
  let ?g = "\<lambda>(k, v). TString k # Colon # toks v"
  let ?r = "join [Comma] (map ?g (n # ms)) @ RBrace # rest"
  have "parse_value nv (toks v @ Comma # ?r) = Some (v, Comma # ?r)"
    by (rule "3.prems"(1) [of k]) (simp add: m)
  then have "parse_members nv acc (TString k # Colon # toks v @ Comma # ?r) =
      parse_members nv (define_member k v acc) ?r"
    by (rule parse_members_more) simp
  moreover have new: "define_member k v acc = acc @ [m]"
    using "3.prems"(3) by (auto simp: m intro: define_member_new)
  moreover have "parse_members nv (acc @ [m]) ?r = Some (JObj ((acc @ [m]) @ n # ms), rest)"
    using "3.prems" by (intro "3.IH"(2)) auto
  ultimately show ?case
    by (simp add: m)
qed

lemma parse_value_toks:
  "plain v \<Longrightarrow> parse_value nv (toks v @ rest) = Some (v, rest)"
proof (induction v arbitrary: rest)
  case (JArr xs)
  show ?case
  proof (cases xs)
    case Nil
    then show ?thesis by simp
  next
    case (Cons y ys)
    have elems: "parse_value nv (toks x @ rest') = Some (x, rest')" if "x \<in> set xs" for x rest'
      using that JArr.prems by (intro JArr.IH) (simp_all add: list_all_iff)
    obtain t ts where first: "join [Comma] (map toks xs) = t # ts" "t \<noteq> RBrack"
      using join_first [of xs toks] toks_first Cons by blast
    then have "parse_value nv (LBrack # join [Comma] (map toks xs) @ RBrack # rest) =
        parse_elements nv [] (join [Comma] (map toks xs) @ RBrack # rest)"
      by (intro parse_value_array [where ts' = "ts @ RBrack # rest"]) simp_all
    also have "\<dots> = Some (JArr ([] @ xs), rest)"
      using elems Cons by (intro parse_elements_toks) simp_all
    finally show ?thesis by simp
  qed
next
  case (JObj ms)
  show ?case
  proof (cases ms)
    case Nil
    then show ?thesis by simp
  next
    case (Cons m ms')
    let ?g = "\<lambda>(k, v). TString k # Colon # toks v"
    have members: "parse_value nv (toks v @ rest') = Some (v, rest')" if "(k, v) \<in> set ms" for k v rest'
    proof (rule JObj.IH)
      show "(k, v) \<in> set ms" by (rule that)
      show "v \<in> Basic_BNFs.snds (k, v)" by simp
      show "plain v" using that JObj.prems by (auto simp: list_all_iff)
    qed
    have "\<forall>m \<in> set ms. \<exists>t ts. ?g m = t # ts \<and> t \<noteq> RBrack \<and> t \<noteq> RBrace"
      by auto
    then obtain t ts where first: "join [Comma] (map ?g ms) = t # ts" "t \<noteq> RBrace"
      using join_first [of ms ?g] Cons by blast
    then have "parse_value nv (LBrace # join [Comma] (map ?g ms) @ RBrace # rest) =
        parse_members nv [] (join [Comma] (map ?g ms) @ RBrace # rest)"
      by (intro parse_value_object [where ts' = "ts @ RBrace # rest"]) simp_all
    also have "\<dots> = Some (JObj ([] @ ms), rest)"
      using members Cons JObj.prems by (intro parse_members_toks) simp_all
    finally show ?thesis by simp
  qed
qed simp_all

lemma JSON_parse_stringify: "plain v \<Longrightarrow> JSON_parse nv (JSON_stringify v) = Some v"
  using tokenize_serialize [of v "[]" "[]"] parse_value_toks [of v nv "[]"]
  by (simp add: JSON_parse_def JSON_stringify_def)

lemma parse_shorter:
  "parse_value nv ts = Some (v, r) \<Longrightarrow> length r < length ts"
  "parse_elements nv acc ts = Some (v, r) \<Longrightarrow> length r < length ts"
  "parse_members nv macc ts = Some (v, r) \<Longrightarrow> length r < length ts"
proof (induction nv ts and nv acc ts and nv macc ts arbitrary: v r and v r and v r
    rule: parse_value_parse_elements_parse_members.induct)
  case (7 nv ts)
  then show ?case
    by (fastforce split: list.splits token.splits)
next
  case (8 nv ts)
  then show ?case
    by (fastforce split: list.splits token.splits)
next
  case (13 nv acc ts)
  from "13.prems" show ?case
    by (subst (asm) parse_elements.simps)
       (fastforce split: option.splits if_splits list.splits token.splits dest: "13.IH"(2))
next
  case (14 nv acc ts)
  from "14.prems" show ?case
    by (subst (asm) parse_members.simps)
       (fastforce split: option.splits if_splits list.splits token.splits dest: "14.IH"(2))
qed auto

subsection \<open>The chat history\<close>

lemma plain_history: "plain (JArr (map json_of_ChatMessage history))"
proof -
  have "js ''role'' \<noteq> js ''content''" "js ''role'' \<noteq> js ''reminders''"
    "js ''content'' \<noteq> js ''reminders''"
    by (simp_all add: js_def)
  then have "plain (json_of_ChatMessage m)" for m
    by (simp add: json_of_ChatMessage_def json_of_Role_def list_all_iff split: option.split)
  then show ?thesis
    by (simp add: list_all_iff)
qed

lemma json_of_Role_inject: "json_of_Role a = json_of_Role b \<Longrightarrow> a = b"
  by (cases a; cases b) (simp_all add: json_of_Role_def js_def)

lemma json_of_ChatMessage_inject:
  "json_of_ChatMessage a = json_of_ChatMessage b \<Longrightarrow> a = (b :: ChatMessage)"
proof -
  assume eq: "json_of_ChatMessage a = json_of_ChatMessage b"
  then have "role a = role b" "content a = content b"
    by (auto simp: json_of_ChatMessage_def dest: json_of_Role_inject)
  moreover have "reminders a = reminders b"
    using eq by (auto simp: json_of_ChatMessage_def inj_map_eq_map inj_on_def split: option.splits)
  ultimately show ?thesis by simp
qed

lemma history_inject:
  "(map json_of_ChatMessage h' = map json_of_ChatMessage h) = (h' = h)"
  by (rule inj_map_eq_map) (auto simp: inj_on_def dest: json_of_ChatMessage_inject)

lemma stringify_array_nonempty: "JSON_stringify (JArr xs) \<noteq> []"
  by (simp add: JSON_stringify_def wrap_compact js_def)

lemma JSON_parse_empty: "JSON_parse nv [] = None"
  by (simp add: JSON_parse_def)

lemma readHistory_stored:
  "\<not> denied st \<Longrightarrow> entries st STORAGE_KEY = Some raw \<Longrightarrow> JSON_parse nv raw = Some (JArr xs) \<Longrightarrow>
   readHistory nv st = xs"
  by (auto simp: readHistory_def readHistory_try_def getItem_def JSON_parse_empty)

text \<open>
  Claim C4. When the store accepts the write (access is not denied and the entry fits),
  reading the store that \<open>writeHistory\<close> returns gives the sequence of the messages written,
  each as the object it is, for every sequence of chat messages; and the sequence read
  determines the sequence written.
\<close>

theorem history_round_trip:
  "\<not> denied st \<Longrightarrow>
   length STORAGE_KEY + length (JSON_stringify (JArr (map json_of_ChatMessage history))) \<le> capacity st \<Longrightarrow>
   readHistory nv (writeHistory history st) = map json_of_ChatMessage history \<and>
   (map json_of_ChatMessage h' = readHistory nv (writeHistory history st)) = (h' = history)"
proof -
  assume ok: "\<not> denied st"
    "length STORAGE_KEY + length (JSON_stringify (JArr (map json_of_ChatMessage history))) \<le> capacity st"
  let ?raw = "JSON_stringify (JArr (map json_of_ChatMessage history))"
  have w: "writeHistory history st = st\<lparr>entries := (entries st)(STORAGE_KEY \<mapsto> ?raw)\<rparr>"
    using ok by (simp add: writeHistory_def setItem_def)
  have "JSON_parse nv ?raw = Some (JArr (map json_of_ChatMessage history))"
    using plain_history by (rule JSON_parse_stringify)
  then have "readHistory nv (writeHistory history st) = map json_of_ChatMessage history"
    using ok(1) by (intro readHistory_stored [where raw = ?raw]) (simp_all add: w)
  then show ?thesis
    by (simp add: history_inject)
qed

text \<open>A conversation of two messages, written to an empty store of five million
  code units and read back; the text that is stored.\<close>

lemma stored_text_example:
  \<open>JSON_stringify (JArr (map json_of_ChatMessage
      [\<lparr>role = User, content = js ''hi'', reminders = None\<rparr>,
       assistant_message (js ''Added milk'')])) =
   js ''[{"role":"user","content":"hi"},{"role":"ai","content":"Added milk","reminders":[]}]''\<close>
  by (simp add: JSON_stringify_def json_of_ChatMessage_def json_of_Role_def wrap_def
      QuoteJSONString_def quote_unit_def is_leading_surrogate_def is_trailing_surrogate_def js_def)

theorem history_round_trip_witness:
  "readHistory Number
     (writeHistory [\<lparr>role = User, content = js ''hi'', reminders = None\<rparr>,
                    assistant_message (js ''Added milk'')]
        \<lparr>entries = Map.empty, denied = False, capacity = 5000000\<rparr>) =
   [JObj [(js ''role'', JStr (js ''user'')), (js ''content'', JStr (js ''hi''))],
    JObj [(js ''role'', JStr (js ''ai'')), (js ''content'', JStr (js ''Added milk'')),
          (js ''reminders'', JArr [])]]"
proof -
  let ?h = "[\<lparr>role = User, content = js ''hi'', reminders = None\<rparr>,
             assistant_message (js ''Added milk'')]"
  let ?st = "\<lparr>entries = Map.empty, denied = False, capacity = 5000000\<rparr>"
  have fits: "length STORAGE_KEY + length (JSON_stringify (JArr (map json_of_ChatMessage ?h))) \<le>
      capacity ?st"
    by (simp only: stored_text_example) (simp add: STORAGE_KEY_def js_def)
  have "\<not> denied ?st"
    by simp
  then have "readHistory Number (writeHistory ?h ?st) = map json_of_ChatMessage ?h"
    using fits history_round_trip [of ?st ?h Number ?h] by blast
  then show ?thesis
    by (simp add: json_of_ChatMessage_def json_of_Role_def)
qed

text \<open>
  Claim C5. \<open>readHistory\<close> returns the empty sequence when access to the store is denied,
  when the key is missing, when the stored text is not JSON, and when it is JSON but not
  an array; whenever the body of its \<open>try\<close> block throws, it returns the empty sequence
  instead of throwing. A stored JSON array is returned, and whatever non-empty sequence is
  returned is the array that the stored text denotes.
\<close>

theorem load_fails_soft:
  "(denied st \<longrightarrow> readHistory nv st = []) \<and>
   (entries st STORAGE_KEY = None \<longrightarrow> readHistory nv st = []) \<and>
   (\<forall>raw. entries st STORAGE_KEY = Some raw \<and> JSON_parse nv raw = None \<longrightarrow> readHistory nv st = []) \<and>
   (\<forall>raw v. entries st STORAGE_KEY = Some raw \<and> JSON_parse nv raw = Some v \<and> \<not> Array_isArray v \<longrightarrow>
      readHistory nv st = []) \<and>
   (\<forall>e. readHistory_try nv st = Inl e \<longrightarrow> readHistory nv st = []) \<and>
   (\<forall>raw xs. \<not> denied st \<and> entries st STORAGE_KEY = Some raw \<and> JSON_parse nv raw = Some (JArr xs) \<longrightarrow>
      readHistory nv st = xs) \<and>
   (readHistory nv st \<noteq> [] \<longrightarrow>
      (\<exists>raw. \<not> denied st \<and> entries st STORAGE_KEY = Some raw \<and>
             JSON_parse nv raw = Some (JArr (readHistory nv st))))"
proof -
  have a: "denied st \<Longrightarrow> readHistory nv st = []"
    by (simp add: readHistory_def readHistory_try_def getItem_def)
  have b: "entries st STORAGE_KEY = None \<Longrightarrow> readHistory nv st = []"
    by (simp add: readHistory_def readHistory_try_def getItem_def)
  have c: "entries st STORAGE_KEY = Some raw \<Longrightarrow> JSON_parse nv raw = None \<Longrightarrow> readHistory nv st = []"
    for raw
    by (simp add: readHistory_def readHistory_try_def getItem_def)
  have d: "entries st STORAGE_KEY = Some raw \<Longrightarrow> JSON_parse nv raw = Some v \<Longrightarrow>
      \<not> Array_isArray v \<Longrightarrow> readHistory nv st = []" for raw v
    by (simp add: readHistory_def readHistory_try_def getItem_def)
  have e: "readHistory_try nv st = Inl e \<Longrightarrow> readHistory nv st = []" for e
    by (simp add: readHistory_def)
  have f: "\<exists>raw. \<not> denied st \<and> entries st STORAGE_KEY = Some raw \<and>
      JSON_parse nv raw = Some (JArr (readHistory nv st))" if "readHistory nv st \<noteq> []"
  proof -
    from that a have nd: "\<not> denied st" by blast
    from that b obtain raw where raw: "entries st STORAGE_KEY = Some raw" by fastforce
    from that c raw obtain v where v: "JSON_parse nv raw = Some v" by fastforce
    from that d raw v have "Array_isArray v" by blast
    then obtain xs where "v = JArr xs" by (cases v) simp_all
    with nd raw v readHistory_stored [of st raw nv xs] show ?thesis by auto
  qed
  from a b c d e f readHistory_stored [of st _ nv] show ?thesis
    by blast
qed

text \<open>Stores without the key, with text that is not JSON, with an object and with an
  array, and a store that denies access.\<close>

lemma parse_malformed_example: "JSON_parse Number (js ''{oops'') = None"
  by (simp add: JSON_parse_def tokenize.simps is_json_space_def is_digit_def js_def)

lemma parse_object_example: "JSON_parse Number (js ''{}'') = Some (JObj [])"
  by (simp add: JSON_parse_def tokenize.simps is_json_space_def is_digit_def js_def)

lemma parse_array_example:
  "JSON_parse Number (js ''[true, null]'') = Some (JArr [JBool True, JNull])"
  by (simp add: JSON_parse_def tokenize.simps is_json_space_def is_digit_def js_def
      parse_elements.simps)

theorem load_fails_soft_witness:
  "readHistory Number \<lparr>entries = Map.empty, denied = False, capacity = 5000000\<rparr> = [] \<and>
   readHistory Number
     \<lparr>entries = [STORAGE_KEY \<mapsto> js ''{oops''], denied = False, capacity = 5000000\<rparr> = [] \<and>
   readHistory Number
     \<lparr>entries = [STORAGE_KEY \<mapsto> js ''{}''], denied = False, capacity = 5000000\<rparr> = [] \<and>
   readHistory Number
     \<lparr>entries = [STORAGE_KEY \<mapsto> js ''[true, null]''], denied = False, capacity = 5000000\<rparr> =
     [JBool True, JNull] \<and>
   readHistory Number
     \<lparr>entries = [STORAGE_KEY \<mapsto> js ''[true, null]''], denied = True, capacity = 5000000\<rparr> = []"
proof -
  let ?missing = "\<lparr>entries = Map.empty, denied = False, capacity = 5000000\<rparr>"
  let ?malformed = "\<lparr>entries = [STORAGE_KEY \<mapsto> js ''{oops''], denied = False, capacity = 5000000\<rparr>"
  let ?object = "\<lparr>entries = [STORAGE_KEY \<mapsto> js ''{}''], denied = False, capacity = 5000000\<rparr>"
  let ?array = "\<lparr>entries = [STORAGE_KEY \<mapsto> js ''[true, null]''], denied = False, capacity = 5000000\<rparr>"
  let ?denied = "\<lparr>entries = [STORAGE_KEY \<mapsto> js ''[true, null]''], denied = True, capacity = 5000000\<rparr>"
  have "entries ?missing STORAGE_KEY = None"
    by simp
  with load_fails_soft [of ?missing Number] have "readHistory Number ?missing = []"
    by blast
  moreover have "entries ?malformed STORAGE_KEY = Some (js ''{oops'')"
    by simp
  with load_fails_soft [of ?malformed Number] parse_malformed_example
  have "readHistory Number ?malformed = []"
    by blast
  moreover have "entries ?object STORAGE_KEY = Some (js ''{}'')" "\<not> Array_isArray (JObj [])"
    by simp_all
  with load_fails_soft [of ?object Number] parse_object_example
  have "readHistory Number ?object = []"
    by blast
  moreover have "entries ?array STORAGE_KEY = Some (js ''[true, null]'')" "\<not> denied ?array"
    by simp_all
  with load_fails_soft [of ?array Number] parse_array_example
  have "readHistory Number ?array = [JBool True, JNull]"
    by blast
  moreover have "denied ?denied"
    by simp
  with load_fails_soft [of ?denied Number] have "readHistory Number ?denied = []"
    by blast
  ultimately show ?thesis
    by blast
qed

end
